theory Spec2Isabelle
  imports Main "HOL-Library.Word"
begin

unbundle bit_operations_syntax

section \<open>Machine types and the bus transport\<close>

type_synonym u8 = "8 word"
type_synonym u32 = "32 word"

text \<open>
  A caller's buffer (\<^verbatim>\<open>unsigned char *buf\<close>) is the memory the pointer
  points into, read and written by index; the code never learns its length.
\<close>

type_synonym buffer = "nat \<Rightarrow> u8"

text \<open>
  What a recording transport sees: chip select driven low, one full-duplex
  byte transfer (the byte sent and the byte that came back), chip select
  driven high.
\<close>

datatype spi_event = Asserted | Transmitted u8 u8 | Deasserted

text \<open>
  Modelled from the spec: the bodies of the four macros \<^verbatim>\<open>SPI_INIT\<close>,
  \<^verbatim>\<open>SPI_ASSERT\<close>, \<^verbatim>\<open>SPI_TRANSMIT\<close> and \<^verbatim>\<open>SPI_DEASSERT\<close>, which
  are placeholders in both driver files (\<^verbatim>\<open>/* Your codes */\<close>). The
  spec gives the bus transport as an injected capability with the contract
  assert, transmit one byte and get one byte back, deassert; so the transport
  is a parameter of every function here: a device state \<open>'d\<close> and the four
  operations on it.
\<close>

record 'd transport =
  spi_init :: "'d \<Rightarrow> 'd"
  spi_assert :: "'d \<Rightarrow> 'd"
  spi_transmit :: "u8 \<Rightarrow> 'd \<Rightarrow> u8 \<times> 'd"
  spi_deassert :: "'d \<Rightarrow> 'd"

text \<open>The bus: the device behind the transport, and the events seen so far.\<close>

record 'd bus =
  dev :: 'd
  trace :: "spi_event list"

definition SPI_INIT :: "'d transport \<Rightarrow> 'd bus \<Rightarrow> 'd bus" where
  "SPI_INIT T b = b\<lparr>dev := spi_init T (dev b)\<rparr>"

definition SPI_ASSERT :: "'d transport \<Rightarrow> 'd bus \<Rightarrow> 'd bus" where
  "SPI_ASSERT T b = b\<lparr>dev := spi_assert T (dev b), trace := trace b @ [Asserted]\<rparr>"

definition SPI_TRANSMIT :: "'d transport \<Rightarrow> u8 \<Rightarrow> 'd bus \<Rightarrow> u8 \<times> 'd bus" where
  "SPI_TRANSMIT T x b =
     (case spi_transmit T x (dev b) of
        (r, d) \<Rightarrow> (r, b\<lparr>dev := d, trace := trace b @ [Transmitted x r]\<rparr>))"

definition SPI_DEASSERT :: "'d transport \<Rightarrow> 'd bus \<Rightarrow> 'd bus" where
  "SPI_DEASSERT T b = b\<lparr>dev := spi_deassert T (dev b), trace := trace b @ [Deasserted]\<rparr>"

text \<open>
  Modelled from the spec: the narrowing that \<^verbatim>\<open>SPI_TRANSMIT\<close> applies to
  its argument. \<^verbatim>\<open>SPI_TRANSMIT(addr >> 16)\<close> hands a 32-bit value to the
  transfer, which the spec gives as a transfer of one byte: the low eight bits
  go out.
\<close>

definition addr_byte :: "nat \<Rightarrow> u32 \<Rightarrow> u8" where
  "addr_byte n addr = ucast (drop_bit n addr)"

section \<open>Command codes and geometry\<close>

text \<open>m25p16.c and m25px16.c define the same codes; the last two are m25px16.c's only.\<close>

definition CMD_WRITE_ENABLE :: u8 where "CMD_WRITE_ENABLE = 0x06"
definition CMD_WRITE_DISABLE :: u8 where "CMD_WRITE_DISABLE = 0x04"
definition CMD_READ_IDENTIFICATION :: u8 where "CMD_READ_IDENTIFICATION = 0x9F"
definition CMD_READ_STATUS_REGISTER :: u8 where "CMD_READ_STATUS_REGISTER = 0x05"
definition CMD_WRITE_STATUS_REGISTER :: u8 where "CMD_WRITE_STATUS_REGISTER = 0x01"
definition CMD_READ_DATA_BYTES :: u8 where "CMD_READ_DATA_BYTES = 0x03"
definition CMD_PAGE_PROGRAM :: u8 where "CMD_PAGE_PROGRAM = 0x02"
definition CMD_SECTOR_ERASE :: u8 where "CMD_SECTOR_ERASE = 0xD8"
definition CMD_BULK_ERASE :: u8 where "CMD_BULK_ERASE = 0xC7"
definition CMD_DEEP_POWER_DOWN :: u8 where "CMD_DEEP_POWER_DOWN = 0xB9"
definition CMD_RELEASE_FROM_DEEP_POWER_DOWN :: u8 where
  "CMD_RELEASE_FROM_DEEP_POWER_DOWN = 0xAB"
definition CMD_WRITE_LOCK_REGISTER :: u8 where "CMD_WRITE_LOCK_REGISTER = 0xE5"
definition CMD_READ_LOCK_REGISTER :: u8 where "CMD_READ_LOCK_REGISTER = 0xE8"

lemmas CMD_defs =
  CMD_WRITE_ENABLE_def CMD_WRITE_DISABLE_def CMD_READ_IDENTIFICATION_def
  CMD_READ_STATUS_REGISTER_def CMD_WRITE_STATUS_REGISTER_def CMD_READ_DATA_BYTES_def
  CMD_PAGE_PROGRAM_def CMD_SECTOR_ERASE_def CMD_BULK_ERASE_def CMD_DEEP_POWER_DOWN_def
  CMD_RELEASE_FROM_DEEP_POWER_DOWN_def CMD_WRITE_LOCK_REGISTER_def
  CMD_READ_LOCK_REGISTER_def

definition M25P16_PAGE_COUNT :: u32 where "M25P16_PAGE_COUNT = 8192"
definition M25P16_PAGE_BYTE_SIZE :: u32 where "M25P16_PAGE_BYTE_SIZE = 256"
definition M25P16_SECTOR_COUNT :: u32 where "M25P16_SECTOR_COUNT = 32"
definition M25P16_SECTOR_BYTE_SIZE :: u32 where "M25P16_SECTOR_BYTE_SIZE = 65536"

text \<open>\<^verbatim>\<open>#define M25P16_SREG_WRITE_IN_PROGRESS(SREG) ((SREG) & (1 << 0))\<close>\<close>

definition M25P16_SREG_WRITE_IN_PROGRESS :: "u8 \<Rightarrow> u8" where
  "M25P16_SREG_WRITE_IN_PROGRESS sreg = sreg AND push_bit 0 1"

text \<open>
  The identification structure. \<open>cfd_content\<close> is the memory at
  \<^verbatim>\<open>p->cfd_content\<close>, by index; the array the structure declares is its
  first \<open>CFD_CONTENT_SIZE\<close> bytes, and an index from there on is memory past
  the end of the structure.
\<close>

record m25p16_identification_t =
  manufacturer :: u8
  memory_type :: u8
  memory_capacity :: u8
  cfd_length :: u8
  cfd_content :: buffer

definition CFD_CONTENT_SIZE :: nat where "CFD_CONTENT_SIZE = 16"

section \<open>The chip command driver (m25p16.c)\<close>

definition m25p16_init :: "'d transport \<Rightarrow> 'd bus \<Rightarrow> 'd bus" where
  "m25p16_init T b = SPI_INIT T b"

definition m25p16_write_enable :: "'d transport \<Rightarrow> 'd bus \<Rightarrow> 'd bus" where
  "m25p16_write_enable T b0 =
     (let b1 = SPI_ASSERT T b0;
          b2 = snd (SPI_TRANSMIT T CMD_WRITE_ENABLE b1)
      in SPI_DEASSERT T b2)"

definition m25p16_write_disable :: "'d transport \<Rightarrow> 'd bus \<Rightarrow> 'd bus" where
  "m25p16_write_disable T b0 =
     (let b1 = SPI_ASSERT T b0;
          b2 = snd (SPI_TRANSMIT T CMD_WRITE_DISABLE b1)
      in SPI_DEASSERT T b2)"

text \<open>
  The loop \<^verbatim>\<open>for (i = 0; i < p->cfd_length; i++) p->cfd_content[i] = SPI_TRANSMIT(0);\<close>
  with \<open>n\<close> the iterations still to run. Nothing compares \<open>i\<close> with the
  size of the array.
\<close>

fun m25p16_read_identification_loop ::
  "'d transport \<Rightarrow> nat \<Rightarrow> nat \<Rightarrow> m25p16_identification_t \<Rightarrow> 'd bus
    \<Rightarrow> m25p16_identification_t \<times> 'd bus" where
  "m25p16_read_identification_loop T i 0 p b = (p, b)"
| "m25p16_read_identification_loop T i (Suc n) p b =
     (case SPI_TRANSMIT T 0 b of
        (r, b') \<Rightarrow>
          m25p16_read_identification_loop T (Suc i) n
            (p\<lparr>cfd_content := (cfd_content p)(i := r)\<rparr>) b')"

definition m25p16_read_identification ::
  "'d transport \<Rightarrow> m25p16_identification_t \<Rightarrow> 'd bus \<Rightarrow> m25p16_identification_t \<times> 'd bus"
  where
  "m25p16_read_identification T p0 b0 =
     (let b1 = SPI_ASSERT T b0;
          b2 = snd (SPI_TRANSMIT T CMD_READ_IDENTIFICATION b1);
          (r1, b3) = SPI_TRANSMIT T 0 b2;
          p1 = p0\<lparr>manufacturer := r1\<rparr>;
          (r2, b4) = SPI_TRANSMIT T 0 b3;
          p2 = p1\<lparr>memory_type := r2\<rparr>;
          (r3, b5) = SPI_TRANSMIT T 0 b4;
          p3 = p2\<lparr>memory_capacity := r3\<rparr>;
          (r4, b6) = SPI_TRANSMIT T 0 b5;
          p4 = p3\<lparr>cfd_length := r4\<rparr>;
          (p5, b7) = m25p16_read_identification_loop T 0 (unat (cfd_length p4)) p4 b6
      in (p5, SPI_DEASSERT T b7))"

definition m25p16_read_status_register :: "'d transport \<Rightarrow> 'd bus \<Rightarrow> u8 \<times> 'd bus" where
  "m25p16_read_status_register T b0 =
     (let b1 = SPI_ASSERT T b0;
          b2 = snd (SPI_TRANSMIT T CMD_READ_STATUS_REGISTER b1);
          (sreg, b3) = SPI_TRANSMIT T 0 b2
      in (sreg, SPI_DEASSERT T b3))"

definition m25p16_write_status_register :: "'d transport \<Rightarrow> u8 \<Rightarrow> 'd bus \<Rightarrow> 'd bus" where
  "m25p16_write_status_register T sreg b0 =
     (let b1 = SPI_ASSERT T b0;
          b2 = snd (SPI_TRANSMIT T CMD_WRITE_STATUS_REGISTER b1);
          b3 = snd (SPI_TRANSMIT T sreg b2)
      in SPI_DEASSERT T b3)"

text \<open>\<^verbatim>\<open>for (i = 0; i < siz; i++) buf[i] = SPI_TRANSMIT(0);\<close>, \<open>n\<close> iterations to run.\<close>

fun m25p16_read_data_bytes_loop ::
  "'d transport \<Rightarrow> nat \<Rightarrow> nat \<Rightarrow> buffer \<Rightarrow> 'd bus \<Rightarrow> buffer \<times> 'd bus" where
  "m25p16_read_data_bytes_loop T i 0 buf b = (buf, b)"
| "m25p16_read_data_bytes_loop T i (Suc n) buf b =
     (case SPI_TRANSMIT T 0 b of
        (r, b') \<Rightarrow> m25p16_read_data_bytes_loop T (Suc i) n (buf(i := r)) b')"

definition m25p16_read_data_bytes ::
  "'d transport \<Rightarrow> u32 \<Rightarrow> buffer \<Rightarrow> u32 \<Rightarrow> 'd bus \<Rightarrow> buffer \<times> 'd bus" where
  "m25p16_read_data_bytes T addr buf siz b0 =
     (let b1 = SPI_ASSERT T b0;
          b2 = snd (SPI_TRANSMIT T CMD_READ_DATA_BYTES b1);
          b3 = snd (SPI_TRANSMIT T (addr_byte 16 addr) b2);
          b4 = snd (SPI_TRANSMIT T (addr_byte 8 addr) b3);
          b5 = snd (SPI_TRANSMIT T (addr_byte 0 addr) b4);
          (buf', b6) = m25p16_read_data_bytes_loop T 0 (unat siz) buf b5
      in (buf', SPI_DEASSERT T b6))"

text \<open>\<^verbatim>\<open>for (i = 0; i < siz; i++) SPI_TRANSMIT(buf[i]);\<close>, \<open>n\<close> iterations to run.\<close>

fun m25p16_page_program_loop ::
  "'d transport \<Rightarrow> nat \<Rightarrow> nat \<Rightarrow> buffer \<Rightarrow> 'd bus \<Rightarrow> 'd bus" where
  "m25p16_page_program_loop T i 0 buf b = b"
| "m25p16_page_program_loop T i (Suc n) buf b =
     m25p16_page_program_loop T (Suc i) n buf (snd (SPI_TRANSMIT T (buf i) b))"

definition m25p16_page_program ::
  "'d transport \<Rightarrow> u32 \<Rightarrow> buffer \<Rightarrow> u32 \<Rightarrow> 'd bus \<Rightarrow> 'd bus" where
  "m25p16_page_program T addr buf siz b0 =
     (let b1 = SPI_ASSERT T b0;
          b2 = snd (SPI_TRANSMIT T CMD_PAGE_PROGRAM b1);
          b3 = snd (SPI_TRANSMIT T (addr_byte 16 addr) b2);
          b4 = snd (SPI_TRANSMIT T (addr_byte 8 addr) b3);
          b5 = snd (SPI_TRANSMIT T (addr_byte 0 addr) b4);
          b6 = m25p16_page_program_loop T 0 (unat siz) buf b5
      in SPI_DEASSERT T b6)"

definition m25p16_sector_erase :: "'d transport \<Rightarrow> u32 \<Rightarrow> 'd bus \<Rightarrow> 'd bus" where
  "m25p16_sector_erase T addr b0 =
     (let b1 = SPI_ASSERT T b0;
          b2 = snd (SPI_TRANSMIT T CMD_SECTOR_ERASE b1);
          b3 = snd (SPI_TRANSMIT T (addr_byte 16 addr) b2);
          b4 = snd (SPI_TRANSMIT T (addr_byte 8 addr) b3);
          b5 = snd (SPI_TRANSMIT T (addr_byte 0 addr) b4)
      in SPI_DEASSERT T b5)"

definition m25p16_bulk_erase :: "'d transport \<Rightarrow> 'd bus \<Rightarrow> 'd bus" where
  "m25p16_bulk_erase T b0 =
     (let b1 = SPI_ASSERT T b0;
          b2 = snd (SPI_TRANSMIT T CMD_BULK_ERASE b1)
      in SPI_DEASSERT T b2)"

definition m25p16_deep_power_down :: "'d transport \<Rightarrow> 'd bus \<Rightarrow> 'd bus" where
  "m25p16_deep_power_down T b0 =
     (let b1 = SPI_ASSERT T b0;
          b2 = snd (SPI_TRANSMIT T CMD_DEEP_POWER_DOWN b1)
      in SPI_DEASSERT T b2)"

definition m25p16_release_from_deep_power_down :: "'d transport \<Rightarrow> 'd bus \<Rightarrow> 'd bus" where
  "m25p16_release_from_deep_power_down T b0 =
     (let b1 = SPI_ASSERT T b0;
          b2 = snd (SPI_TRANSMIT T CMD_RELEASE_FROM_DEEP_POWER_DOWN b1)
      in SPI_DEASSERT T b2)"

section \<open>The chip command driver of the extended variant (m25px16.c)\<close>

text \<open>
  m25px16.h declares \<^verbatim>\<open>m25px16_identification_t\<close> with the fields of
  \<^verbatim>\<open>m25p16_identification_t\<close>, and the same geometry constants and
  status register macros under the \<^verbatim>\<open>M25PX16_\<close> prefix.
\<close>

type_synonym m25px16_identification_t = m25p16_identification_t

definition m25px16_init :: "'d transport \<Rightarrow> 'd bus \<Rightarrow> 'd bus" where
  "m25px16_init T b = SPI_INIT T b"

definition m25px16_write_enable :: "'d transport \<Rightarrow> 'd bus \<Rightarrow> 'd bus" where
  "m25px16_write_enable T b0 =
     (let b1 = SPI_ASSERT T b0;
          b2 = snd (SPI_TRANSMIT T CMD_WRITE_ENABLE b1)
      in SPI_DEASSERT T b2)"

definition m25px16_write_disable :: "'d transport \<Rightarrow> 'd bus \<Rightarrow> 'd bus" where
  "m25px16_write_disable T b0 =
     (let b1 = SPI_ASSERT T b0;
          b2 = snd (SPI_TRANSMIT T CMD_WRITE_DISABLE b1)
      in SPI_DEASSERT T b2)"

text \<open>The three loops of m25px16.c are those of m25p16.c, letter for letter.\<close>

definition m25px16_read_identification ::
  "'d transport \<Rightarrow> m25px16_identification_t \<Rightarrow> 'd bus
    \<Rightarrow> m25px16_identification_t \<times> 'd bus" where
  "m25px16_read_identification T p0 b0 =
     (let b1 = SPI_ASSERT T b0;
          b2 = snd (SPI_TRANSMIT T CMD_READ_IDENTIFICATION b1);
          (r1, b3) = SPI_TRANSMIT T 0 b2;
          p1 = p0\<lparr>manufacturer := r1\<rparr>;
          (r2, b4) = SPI_TRANSMIT T 0 b3;
          p2 = p1\<lparr>memory_type := r2\<rparr>;
          (r3, b5) = SPI_TRANSMIT T 0 b4;
          p3 = p2\<lparr>memory_capacity := r3\<rparr>;
          (r4, b6) = SPI_TRANSMIT T 0 b5;
          p4 = p3\<lparr>cfd_length := r4\<rparr>;
          (p5, b7) = m25p16_read_identification_loop T 0 (unat (cfd_length p4)) p4 b6
      in (p5, SPI_DEASSERT T b7))"

definition m25px16_read_status_register :: "'d transport \<Rightarrow> 'd bus \<Rightarrow> u8 \<times> 'd bus" where
  "m25px16_read_status_register T b0 =
     (let b1 = SPI_ASSERT T b0;
          b2 = snd (SPI_TRANSMIT T CMD_READ_STATUS_REGISTER b1);
          (sreg, b3) = SPI_TRANSMIT T 0 b2
      in (sreg, SPI_DEASSERT T b3))"

definition m25px16_write_status_register :: "'d transport \<Rightarrow> u8 \<Rightarrow> 'd bus \<Rightarrow> 'd bus" where
  "m25px16_write_status_register T sreg b0 =
     (let b1 = SPI_ASSERT T b0;
          b2 = snd (SPI_TRANSMIT T CMD_WRITE_STATUS_REGISTER b1);
          b3 = snd (SPI_TRANSMIT T sreg b2)
      in SPI_DEASSERT T b3)"

definition m25px16_write_lock_register ::
  "'d transport \<Rightarrow> u32 \<Rightarrow> u8 \<Rightarrow> 'd bus \<Rightarrow> 'd bus" where
  "m25px16_write_lock_register T addr lock_register b0 =
     (let b1 = SPI_ASSERT T b0;
          b2 = snd (SPI_TRANSMIT T CMD_WRITE_LOCK_REGISTER b1);
          b3 = snd (SPI_TRANSMIT T (addr_byte 16 addr) b2);
          b4 = snd (SPI_TRANSMIT T (addr_byte 8 addr) b3);
          b5 = snd (SPI_TRANSMIT T (addr_byte 0 addr) b4);
          b6 = snd (SPI_TRANSMIT T lock_register b5)
      in SPI_DEASSERT T b6)"

definition m25px16_read_lock_register :: "'d transport \<Rightarrow> u32 \<Rightarrow> 'd bus \<Rightarrow> u8 \<times> 'd bus" where
  "m25px16_read_lock_register T addr b0 =
     (let b1 = SPI_ASSERT T b0;
          b2 = snd (SPI_TRANSMIT T CMD_READ_LOCK_REGISTER b1);
          b3 = snd (SPI_TRANSMIT T (addr_byte 16 addr) b2);
          b4 = snd (SPI_TRANSMIT T (addr_byte 8 addr) b3);
          b5 = snd (SPI_TRANSMIT T (addr_byte 0 addr) b4);
          (lock_register, b6) = SPI_TRANSMIT T 0 b5
      in (lock_register, SPI_DEASSERT T b6))"

definition m25px16_read_data_bytes ::
  "'d transport \<Rightarrow> u32 \<Rightarrow> buffer \<Rightarrow> u32 \<Rightarrow> 'd bus \<Rightarrow> buffer \<times> 'd bus" where
  "m25px16_read_data_bytes T addr buf siz b0 =
     (let b1 = SPI_ASSERT T b0;
          b2 = snd (SPI_TRANSMIT T CMD_READ_DATA_BYTES b1);
          b3 = snd (SPI_TRANSMIT T (addr_byte 16 addr) b2);
          b4 = snd (SPI_TRANSMIT T (addr_byte 8 addr) b3);
          b5 = snd (SPI_TRANSMIT T (addr_byte 0 addr) b4);
          (buf', b6) = m25p16_read_data_bytes_loop T 0 (unat siz) buf b5
      in (buf', SPI_DEASSERT T b6))"

definition m25px16_page_program ::
  "'d transport \<Rightarrow> u32 \<Rightarrow> buffer \<Rightarrow> u32 \<Rightarrow> 'd bus \<Rightarrow> 'd bus" where
  "m25px16_page_program T addr buf siz b0 =
     (let b1 = SPI_ASSERT T b0;
          b2 = snd (SPI_TRANSMIT T CMD_PAGE_PROGRAM b1);
          b3 = snd (SPI_TRANSMIT T (addr_byte 16 addr) b2);
          b4 = snd (SPI_TRANSMIT T (addr_byte 8 addr) b3);
          b5 = snd (SPI_TRANSMIT T (addr_byte 0 addr) b4);
          b6 = m25p16_page_program_loop T 0 (unat siz) buf b5
      in SPI_DEASSERT T b6)"

definition m25px16_sector_erase :: "'d transport \<Rightarrow> u32 \<Rightarrow> 'd bus \<Rightarrow> 'd bus" where
  "m25px16_sector_erase T addr b0 =
     (let b1 = SPI_ASSERT T b0;
          b2 = snd (SPI_TRANSMIT T CMD_SECTOR_ERASE b1);
          b3 = snd (SPI_TRANSMIT T (addr_byte 16 addr) b2);
          b4 = snd (SPI_TRANSMIT T (addr_byte 8 addr) b3);
          b5 = snd (SPI_TRANSMIT T (addr_byte 0 addr) b4)
      in SPI_DEASSERT T b5)"

definition m25px16_bulk_erase :: "'d transport \<Rightarrow> 'd bus \<Rightarrow> 'd bus" where
  "m25px16_bulk_erase T b0 =
     (let b1 = SPI_ASSERT T b0;
          b2 = snd (SPI_TRANSMIT T CMD_BULK_ERASE b1)
      in SPI_DEASSERT T b2)"

definition m25px16_deep_power_down :: "'d transport \<Rightarrow> 'd bus \<Rightarrow> 'd bus" where
  "m25px16_deep_power_down T b0 =
     (let b1 = SPI_ASSERT T b0;
          b2 = snd (SPI_TRANSMIT T CMD_DEEP_POWER_DOWN b1)
      in SPI_DEASSERT T b2)"

definition m25px16_release_from_deep_power_down :: "'d transport \<Rightarrow> 'd bus \<Rightarrow> 'd bus" where
  "m25px16_release_from_deep_power_down T b0 =
     (let b1 = SPI_ASSERT T b0;
          b2 = snd (SPI_TRANSMIT T CMD_RELEASE_FROM_DEEP_POWER_DOWN b1)
      in SPI_DEASSERT T b2)"

section \<open>The storage facade (flash_m25p16.c)\<close>

record flash_info_t =
  page_count :: u32
  page_bytes :: u32
  sector_count :: u32
  sector_bytes :: u32

definition flash_init :: "'d transport \<Rightarrow> 'd bus \<Rightarrow> int \<times> 'd bus" where
  "flash_init T b = (0, m25p16_init T b)"

definition flash_info :: "flash_info_t \<Rightarrow> int \<times> flash_info_t" where
  "flash_info p =
     (0, p\<lparr>page_count := M25P16_PAGE_COUNT, page_bytes := M25P16_PAGE_BYTE_SIZE,
           sector_count := M25P16_SECTOR_COUNT, sector_bytes := M25P16_SECTOR_BYTE_SIZE\<rparr>)"

text \<open>
  The loop of both mutating functions,
  \<^verbatim>\<open>do { m25p16_read_status_register(&sreg); } while (M25P16_SREG_WRITE_IN_PROGRESS(sreg));\<close>
  It has no bound in the source and runs for as long as the device reports a
  cycle in progress, so the model takes fuel: the number of status reads it may
  make. With the fuel spent and the device still busy the result is \<open>None\<close>,
  beside the bus as the reads made so far have left it; the source is then
  still in the loop.
\<close>

fun flash_wait :: "'d transport \<Rightarrow> nat \<Rightarrow> 'd bus \<Rightarrow> u8 option \<times> 'd bus" where
  "flash_wait T 0 b = (None, b)"
| "flash_wait T (Suc fuel) b =
     (case m25p16_read_status_register T b of
        (sreg, b') \<Rightarrow>
          if M25P16_SREG_WRITE_IN_PROGRESS sreg \<noteq> 0 then flash_wait T fuel b'
          else (Some sreg, b'))"

text \<open>
  \<open>unsigned int\<close> is 32 bits wide on the target, so the products
  \<^verbatim>\<open>M25P16_SECTOR_BYTE_SIZE * sector\<close> and \<^verbatim>\<open>M25P16_PAGE_BYTE_SIZE * page\<close>
  are taken modulo \<open>2 ^ 32\<close>. The result is \<open>None\<close> where the source has not
  returned within the fuel.
\<close>

definition flash_sector_erase ::
  "'d transport \<Rightarrow> nat \<Rightarrow> u32 \<Rightarrow> 'd bus \<Rightarrow> int option \<times> 'd bus" where
  "flash_sector_erase T fuel sector b0 =
     (let b1 = m25p16_write_enable T b0;
          b2 = m25p16_sector_erase T (M25P16_SECTOR_BYTE_SIZE * sector) b1
      in case flash_wait T fuel b2 of
           (None, b3) \<Rightarrow> (None, b3)
         | (Some sreg, b3) \<Rightarrow> (Some 0, m25p16_write_disable T b3))"

definition flash_page_write ::
  "'d transport \<Rightarrow> nat \<Rightarrow> u32 \<Rightarrow> buffer \<Rightarrow> u32 \<Rightarrow> 'd bus \<Rightarrow> int option \<times> 'd bus" where
  "flash_page_write T fuel page buf siz b0 =
     (let addr = M25P16_PAGE_BYTE_SIZE * page
      in if M25P16_PAGE_BYTE_SIZE < siz then (Some (- 1), b0)
         else
           (let b1 = m25p16_write_enable T b0;
                b2 = m25p16_page_program T addr buf siz b1
            in case flash_wait T fuel b2 of
                 (None, b3) \<Rightarrow> (None, b3)
               | (Some sreg, b3) \<Rightarrow> (Some 0, m25p16_write_disable T b3)))"

definition flash_page_read ::
  "'d transport \<Rightarrow> u32 \<Rightarrow> buffer \<Rightarrow> u32 \<Rightarrow> 'd bus \<Rightarrow> int \<times> buffer \<times> 'd bus" where
  "flash_page_read T page buf siz b0 =
     (let addr = M25P16_PAGE_BYTE_SIZE * page
      in if M25P16_PAGE_BYTE_SIZE < siz then (- 1, buf, b0)
         else
           (case m25p16_read_data_bytes T addr buf siz b0 of
              (buf', b1) \<Rightarrow> (0, buf', b1)))"

section \<open>Reading a trace\<close>

text \<open>The events a call has added to the bus.\<close>

definition emitted :: "'d bus \<Rightarrow> 'd bus \<Rightarrow> spi_event list" where
  "emitted b b' = drop (length (trace b)) (trace b')"

text \<open>The bytes sent, and the bytes received, in order.\<close>

fun sent_bytes :: "spi_event list \<Rightarrow> u8 list" where
  "sent_bytes [] = []"
| "sent_bytes (Transmitted x r # es) = x # sent_bytes es"
| "sent_bytes (e # es) = sent_bytes es"

fun received_bytes :: "spi_event list \<Rightarrow> u8 list" where
  "received_bytes [] = []"
| "received_bytes (Transmitted x r # es) = r # received_bytes es"
| "received_bytes (e # es) = received_bytes es"

text \<open>
  One scoped acquisition: chip select goes low once, then come byte transfers
  only, then chip select goes high once, and nothing follows.
\<close>

fun transfers_then_release :: "spi_event list \<Rightarrow> bool" where
  "transfers_then_release [Deasserted] = True"
| "transfers_then_release (Transmitted x r # es) = transfers_then_release es"
| "transfers_then_release es = False"

fun scoped_acquisition :: "spi_event list \<Rightarrow> bool" where
  "scoped_acquisition (Asserted # es) = transfers_then_release es"
| "scoped_acquisition es = False"

text \<open>
  A trace cut into its acquisitions: for each stretch from an \<open>Asserted\<close> to the
  next \<open>Deasserted\<close>, the bytes sent and the bytes received in it. A transfer
  with chip select high, or an acquisition left open, has no place in the
  result: the answer is \<open>None\<close>.
\<close>

fun frames_from ::
  "(u8 list \<times> u8 list) option \<Rightarrow> spi_event list \<Rightarrow> (u8 list \<times> u8 list) list option" where
  "frames_from None [] = Some []"
| "frames_from (Some f) [] = None"
| "frames_from None (Asserted # es) = frames_from (Some ([], [])) es"
| "frames_from None (e # es) = None"
| "frames_from (Some (xs, rs)) (Transmitted x r # es) =
     frames_from (Some (xs @ [x], rs @ [r])) es"
| "frames_from (Some f) (Deasserted # es) =
     (case frames_from None es of None \<Rightarrow> None | Some fs \<Rightarrow> Some (f # fs))"
| "frames_from (Some f) (Asserted # es) = None"

definition frames :: "spi_event list \<Rightarrow> (u8 list \<times> u8 list) list option" where
  "frames es = frames_from None es"

text \<open>One acquisition sending \<open>xs\<close> and receiving \<open>rs\<close>, as events.\<close>

definition frame :: "u8 list \<Rightarrow> u8 list \<Rightarrow> spi_event list" where
  "frame xs rs = Asserted # map2 Transmitted xs rs @ [Deasserted]"

text \<open>
  A call took the bus from \<open>b\<close> to \<open>b'\<close> and in between made one
  acquisition in which it sent the bytes \<open>xs\<close>: the trace has grown by that
  acquisition and by nothing else.
\<close>

definition one_frame :: "'d bus \<Rightarrow> 'd bus \<Rightarrow> u8 list \<Rightarrow> bool" where
  "one_frame b b' xs \<longleftrightarrow>
     trace b' = trace b @ emitted b b' \<and>
     emitted b b' = frame xs (received_bytes (emitted b b')) \<and>
     length (received_bytes (emitted b b')) = length xs"

text \<open>
  A call made exactly one scoped acquisition: what it added to the trace is one
  scoped acquisition, and the trace it found is untouched.
\<close>

definition scoped_call :: "'d bus \<Rightarrow> 'd bus \<Rightarrow> bool" where
  "scoped_call b b' \<longleftrightarrow>
     trace b' = trace b @ emitted b b' \<and> scoped_acquisition (emitted b b')"

text \<open>
  The status byte an acquisition brought back, when the acquisition is a read
  of the status register: the command code, one more byte out, one status byte
  in.
\<close>

definition status_poll :: "u8 list \<times> u8 list \<Rightarrow> u8 option" where
  "status_poll f =
     (if fst f = [CMD_READ_STATUS_REGISTER, 0] \<and> length (snd f) = 2
      then Some (snd f ! 1) else None)"

definition busy_poll :: "u8 list \<times> u8 list \<Rightarrow> bool" where
  "busy_poll f =
     (case status_poll f of
        None \<Rightarrow> False
      | Some sreg \<Rightarrow> M25P16_SREG_WRITE_IN_PROGRESS sreg \<noteq> 0)"

text \<open>
  One or more reads of the status register, up to and with the first whose
  status has the write in progress bit clear; the result is what follows
  them. \<open>None\<close> when the acquisitions do not start that way.
\<close>

fun polls_until_clear ::
  "(u8 list \<times> u8 list) list \<Rightarrow> (u8 list \<times> u8 list) list option" where
  "polls_until_clear [] = None"
| "polls_until_clear (f # fs) =
     (case status_poll f of
        None \<Rightarrow> None
      | Some sreg \<Rightarrow>
          if M25P16_SREG_WRITE_IN_PROGRESS sreg \<noteq> 0 then polls_until_clear fs
          else Some fs)"

text \<open>
  The acquisitions of a finished mutating call: write enable, the command
  \<open>cmd\<close>, status reads until the write in progress bit is clear, write
  disable, and no more.
\<close>

definition mutating_sequence :: "u8 list \<Rightarrow> (u8 list \<times> u8 list) list \<Rightarrow> bool" where
  "mutating_sequence cmd fs =
     (case fs of
        f1 # f2 # ps \<Rightarrow>
          fst f1 = [CMD_WRITE_ENABLE] \<and> fst f2 = cmd \<and>
          (case polls_until_clear ps of
             None \<Rightarrow> False
           | Some rest \<Rightarrow> map fst rest = [[CMD_WRITE_DISABLE]])
      | _ \<Rightarrow> False)"

text \<open>
  The acquisitions of a mutating call that is still in its loop after \<open>n\<close>
  status reads: write enable, the command, and \<open>n\<close> status reads that all
  show a cycle in progress.
\<close>

definition still_polling ::
  "u8 list \<Rightarrow> nat \<Rightarrow> (u8 list \<times> u8 list) list \<Rightarrow> bool" where
  "still_polling cmd n fs =
     (case fs of
        f1 # f2 # ps \<Rightarrow>
          fst f1 = [CMD_WRITE_ENABLE] \<and> fst f2 = cmd \<and> length ps = n \<and>
          list_all busy_poll ps
      | _ \<Rightarrow> False)"

text \<open>The same two, read off a trace; a trace that does not cut into acquisitions is neither.\<close>

definition completed_cycle :: "u8 list \<Rightarrow> spi_event list \<Rightarrow> bool" where
  "completed_cycle cmd es =
     (case frames es of None \<Rightarrow> False | Some fs \<Rightarrow> mutating_sequence cmd fs)"

definition cycle_in_progress :: "u8 list \<Rightarrow> nat \<Rightarrow> spi_event list \<Rightarrow> bool" where
  "cycle_in_progress cmd n es =
     (case frames es of None \<Rightarrow> False | Some fs \<Rightarrow> still_polling cmd n fs)"

text \<open>The bytes sent in acquisition number \<open>n\<close> of a trace, counting from 0.\<close>

definition sent_in_frame :: "nat \<Rightarrow> spi_event list \<Rightarrow> u8 list" where
  "sent_in_frame n es =
     (case frames es of
        None \<Rightarrow> []
      | Some fs \<Rightarrow> if n < length fs then fst (fs ! n) else [])"

text \<open>The command bytes either mutating call sends: the code, the address, the data.\<close>

definition address_bytes :: "u32 \<Rightarrow> u8 list" where
  "address_bytes addr = [addr_byte 16 addr, addr_byte 8 addr, addr_byte 0 addr]"

definition sector_erase_bytes :: "u32 \<Rightarrow> u8 list" where
  "sector_erase_bytes addr = CMD_SECTOR_ERASE # address_bytes addr"

definition page_program_bytes :: "u32 \<Rightarrow> buffer \<Rightarrow> u32 \<Rightarrow> u8 list" where
  "page_program_bytes addr buf siz =
     CMD_PAGE_PROGRAM # address_bytes addr @ map buf [0..<unat siz]"

text \<open>Three address bytes read most significant first.\<close>

fun big_endian_24 :: "u8 list \<Rightarrow> nat" where
  "big_endian_24 (a2 # a1 # a0 # xs) = unat a2 * 65536 + unat a1 * 256 + unat a0"
| "big_endian_24 xs = 0"

text \<open>
  What the device itself answers to a read of its status register, and
  whether it shows the write in progress bit clear at one of the next \<open>n\<close>
  such reads.
\<close>

definition status_read :: "'d transport \<Rightarrow> 'd \<Rightarrow> u8 \<times> 'd" where
  "status_read T d0 =
     (let d1 = spi_assert T d0;
          d2 = snd (spi_transmit T CMD_READ_STATUS_REGISTER d1);
          (sreg, d3) = spi_transmit T 0 d2
      in (sreg, spi_deassert T d3))"

fun wip_clears_within :: "'d transport \<Rightarrow> nat \<Rightarrow> 'd \<Rightarrow> bool" where
  "wip_clears_within T 0 d = False"
| "wip_clears_within T (Suc n) d =
     (case status_read T d of
        (sreg, d') \<Rightarrow>
          if M25P16_SREG_WRITE_IN_PROGRESS sreg \<noteq> 0 then wip_clears_within T n d'
          else True)"

section \<open>Transport doubles\<close>

text \<open>A buffer holding the bytes of a list, and zero from there on.\<close>

definition buf_of :: "u8 list \<Rightarrow> buffer" where
  "buf_of xs i = (if i < length xs then xs ! i else 0)"

text \<open>An identification structure with every byte zero.\<close>

definition blank_identification :: m25p16_identification_t where
  "blank_identification =
     \<lparr>manufacturer = 0, memory_type = 0, memory_capacity = 0, cfd_length = 0,
      cfd_content = buf_of []\<rparr>"

text \<open>
  A scripted device answers each transfer with the next byte of a list, and
  with zero once the list is used up.
\<close>

definition scripted :: "u8 list transport" where
  "scripted =
     \<lparr>spi_init = (\<lambda>rs. rs),
      spi_assert = (\<lambda>rs. rs),
      spi_transmit = (\<lambda>x rs. case rs of [] \<Rightarrow> (0, []) | r # rs' \<Rightarrow> (r, rs')),
      spi_deassert = (\<lambda>rs. rs)\<rparr>"

definition script :: "u8 list \<Rightarrow> u8 list bus" where
  "script rs = \<lparr>dev = rs, trace = []\<rparr>"

text \<open>
  Modelled from the spec: the transport test double of its testable
  properties, which the repository does not contain. It is backed by an
  in-memory byte array and honours the erase and program semantics: a page
  program only clears bits (each addressed byte becomes the old byte AND the
  byte sent, the address wrapping inside its 256-byte page), a sector erase
  sets every byte of the 65536-byte sector to \<open>0xFF\<close>, both only with the
  write enable latch set, which they reset. A cycle shows as write in progress
  for the next \<open>cycle_polls\<close> reads of the status register; the double
  does not refuse a command that arrives during a cycle.
\<close>

record flash_chip =
  memory :: "nat \<Rightarrow> u8"
  write_enable_latch :: bool
  busy_polls :: nat
  cycle_polls :: nat
  selected :: bool
  latched :: "u8 list"

fun program_page :: "(nat \<Rightarrow> u8) \<Rightarrow> nat \<Rightarrow> u8 list \<Rightarrow> (nat \<Rightarrow> u8)" where
  "program_page m a [] = m"
| "program_page m a (x # xs) =
     program_page (m(a := m a AND x)) (a div 256 * 256 + (a + 1) mod 256) xs"

definition erase_sector :: "(nat \<Rightarrow> u8) \<Rightarrow> nat \<Rightarrow> (nat \<Rightarrow> u8)" where
  "erase_sector m a = (\<lambda>k. if k div 65536 = a div 65536 then 0xFF else m k)"

definition chip_status :: "flash_chip \<Rightarrow> u8" where
  "chip_status c =
     (if 0 < busy_polls c then 1 else 0) OR (if write_enable_latch c then 2 else 0)"

definition chip_assert :: "flash_chip \<Rightarrow> flash_chip" where
  "chip_assert c = c\<lparr>selected := True, latched := []\<rparr>"

definition chip_transmit :: "u8 \<Rightarrow> flash_chip \<Rightarrow> u8 \<times> flash_chip" where
  "chip_transmit x c =
     (if \<not> selected c then (0, c)
      else
        (case latched c of
           [] \<Rightarrow> (0, c\<lparr>latched := [x]\<rparr>)
         | opc # rest \<Rightarrow>
             if opc = CMD_READ_STATUS_REGISTER then
               (chip_status c, c\<lparr>busy_polls := busy_polls c - 1, latched := latched c @ [x]\<rparr>)
             else if opc = CMD_READ_DATA_BYTES \<and> 3 \<le> length rest then
               (memory c ((big_endian_24 rest + (length rest - 3)) mod 2 ^ 24),
                c\<lparr>latched := latched c @ [x]\<rparr>)
             else (0, c\<lparr>latched := latched c @ [x]\<rparr>)))"

definition chip_deassert :: "flash_chip \<Rightarrow> flash_chip" where
  "chip_deassert c =
     (let c' = c\<lparr>selected := False, latched := []\<rparr>
      in case latched c of
           [] \<Rightarrow> c'
         | opc # rest \<Rightarrow>
             if opc = CMD_WRITE_ENABLE \<and> rest = [] then c'\<lparr>write_enable_latch := True\<rparr>
             else if opc = CMD_WRITE_DISABLE \<and> rest = [] then c'\<lparr>write_enable_latch := False\<rparr>
             else if opc = CMD_PAGE_PROGRAM \<and> 3 \<le> length rest \<and> write_enable_latch c then
               c'\<lparr>memory := program_page (memory c) (big_endian_24 rest) (drop 3 rest),
                  write_enable_latch := False, busy_polls := cycle_polls c\<rparr>
             else if opc = CMD_SECTOR_ERASE \<and> length rest = 3 \<and> write_enable_latch c then
               c'\<lparr>memory := erase_sector (memory c) (big_endian_24 rest),
                  write_enable_latch := False, busy_polls := cycle_polls c\<rparr>
             else c')"

definition flash_double :: "flash_chip transport" where
  "flash_double =
     \<lparr>spi_init = (\<lambda>c. c), spi_assert = chip_assert,
      spi_transmit = chip_transmit, spi_deassert = chip_deassert\<rparr>"

text \<open>A chip with every byte at \<open>fill\<close>, idle, whose cycles last two status reads.\<close>

definition chip_filled :: "u8 \<Rightarrow> flash_chip bus" where
  "chip_filled fill =
     \<lparr>dev = \<lparr>memory = (\<lambda>a. fill), write_enable_latch = False, busy_polls = 0,
             cycle_polls = 2, selected = False, latched = []\<rparr>,
      trace = []\<rparr>"

section \<open>Auxiliary facts\<close>

subsection \<open>The transport primitives\<close>

lemma trace_SPI_ASSERT: "trace (SPI_ASSERT T b) = trace b @ [Asserted]"
  by (simp add: SPI_ASSERT_def)
lemma dev_SPI_ASSERT: "dev (SPI_ASSERT T b) = spi_assert T (dev b)"
  by (simp add: SPI_ASSERT_def)
lemma trace_SPI_DEASSERT: "trace (SPI_DEASSERT T b) = trace b @ [Deasserted]"
  by (simp add: SPI_DEASSERT_def)
lemma dev_SPI_DEASSERT: "dev (SPI_DEASSERT T b) = spi_deassert T (dev b)"
  by (simp add: SPI_DEASSERT_def)
lemma fst_SPI_TRANSMIT: "fst (SPI_TRANSMIT T x b) = fst (spi_transmit T x (dev b))"
  by (simp add: SPI_TRANSMIT_def split_beta)
lemma trace_SPI_TRANSMIT:
  "trace (snd (SPI_TRANSMIT T x b)) = trace b @ [Transmitted x (fst (spi_transmit T x (dev b)))]"
  by (simp add: SPI_TRANSMIT_def split_beta)
lemma dev_SPI_TRANSMIT: "dev (snd (SPI_TRANSMIT T x b)) = snd (spi_transmit T x (dev b))"
  by (simp add: SPI_TRANSMIT_def split_beta)

lemmas SPI_simps = trace_SPI_ASSERT dev_SPI_ASSERT trace_SPI_DEASSERT dev_SPI_DEASSERT
  fst_SPI_TRANSMIT trace_SPI_TRANSMIT dev_SPI_TRANSMIT

subsection \<open>Acquisitions in a trace\<close>

lemma emitted_append: "trace b' = trace b @ es \<Longrightarrow> emitted b b' = es"
  by (simp add: emitted_def)

lemma sent_bytes_transfers:
  "length rs = length xs \<Longrightarrow> sent_bytes (map2 Transmitted xs rs @ es) = xs @ sent_bytes es"
  by (induction xs rs rule: list_induct2') auto

lemma received_bytes_transfers:
  "length rs = length xs \<Longrightarrow> received_bytes (map2 Transmitted xs rs @ es) = rs @ received_bytes es"
  by (induction xs rs rule: list_induct2') auto

lemma transfers_then_release_transfers:
  "transfers_then_release (map2 Transmitted xs rs @ [Deasserted])"
  by (induction xs rs rule: list_induct2') auto

lemma scoped_acquisition_frame: "scoped_acquisition (frame xs rs)"
  by (simp add: frame_def transfers_then_release_transfers)

lemma sent_bytes_frame: "length rs = length xs \<Longrightarrow> sent_bytes (frame xs rs) = xs"
  by (simp add: frame_def sent_bytes_transfers)

lemma received_bytes_frame: "length rs = length xs \<Longrightarrow> received_bytes (frame xs rs) = rs"
  by (simp add: frame_def received_bytes_transfers)

lemma one_frameI:
  assumes "length rs = length xs" and "trace b' = trace b @ frame xs rs"
  shows "one_frame b b' xs"
  using assms by (simp add: one_frame_def emitted_append received_bytes_frame)

lemma one_frame_scoped_call: "one_frame b b' xs \<Longrightarrow> scoped_call b b'"
  by (metis one_frame_def scoped_call_def scoped_acquisition_frame)

lemma one_frame_sent: "one_frame b b' xs \<Longrightarrow> sent_bytes (emitted b b') = xs"
  by (metis one_frame_def sent_bytes_frame)

lemma frames_from_transfers:
  "length rs = length xs \<Longrightarrow>
   frames_from (Some (xs0, rs0)) (map2 Transmitted xs rs @ Deasserted # es) =
     (case frames_from None es of None \<Rightarrow> None | Some fs \<Rightarrow> Some ((xs0 @ xs, rs0 @ rs) # fs))"
  by (induction xs rs arbitrary: xs0 rs0 rule: list_induct2') (auto split: option.split)

lemma frames_frame_append:
  "length rs = length xs \<Longrightarrow>
   frames (frame xs rs @ es) =
     (case frames es of None \<Rightarrow> None | Some fs \<Rightarrow> Some ((xs, rs) # fs))"
  using frames_from_transfers [of rs xs "[]" "[]" es]
  by (simp add: frames_def frame_def split: option.split)

lemma frames_Nil: "frames [] = Some []"
  by (simp add: frames_def)

subsection \<open>The commands without a loop\<close>

lemmas m25p16_defs =
  m25p16_write_enable_def m25p16_write_disable_def m25p16_read_status_register_def
  m25p16_write_status_register_def m25p16_sector_erase_def m25p16_bulk_erase_def
  m25p16_deep_power_down_def m25p16_release_from_deep_power_down_def

lemmas m25px16_defs =
  m25px16_write_enable_def m25px16_write_disable_def m25px16_read_status_register_def
  m25px16_write_status_register_def m25px16_write_lock_register_def
  m25px16_read_lock_register_def m25px16_sector_erase_def m25px16_bulk_erase_def
  m25px16_deep_power_down_def m25px16_release_from_deep_power_down_def

lemma m25p16_frames:
  "one_frame b (m25p16_write_enable T b) [CMD_WRITE_ENABLE]"
  "one_frame b (m25p16_write_disable T b) [CMD_WRITE_DISABLE]"
  "one_frame b (snd (m25p16_read_status_register T b)) [CMD_READ_STATUS_REGISTER, 0]"
  "one_frame b (m25p16_write_status_register T sreg b) [CMD_WRITE_STATUS_REGISTER, sreg]"
  "one_frame b (m25p16_sector_erase T addr b) (sector_erase_bytes addr)"
  "one_frame b (m25p16_bulk_erase T b) [CMD_BULK_ERASE]"
  "one_frame b (m25p16_deep_power_down T b) [CMD_DEEP_POWER_DOWN]"
  "one_frame b (m25p16_release_from_deep_power_down T b) [CMD_RELEASE_FROM_DEEP_POWER_DOWN]"
  by (simp_all add: one_frame_def emitted_def frame_def m25p16_defs Let_def split_beta
      SPI_simps sector_erase_bytes_def address_bytes_def)

lemma m25px16_frames:
  "one_frame b (m25px16_write_enable T b) [CMD_WRITE_ENABLE]"
  "one_frame b (m25px16_write_disable T b) [CMD_WRITE_DISABLE]"
  "one_frame b (snd (m25px16_read_status_register T b)) [CMD_READ_STATUS_REGISTER, 0]"
  "one_frame b (m25px16_write_status_register T sreg b) [CMD_WRITE_STATUS_REGISTER, sreg]"
  "one_frame b (m25px16_write_lock_register T addr lr b) (CMD_WRITE_LOCK_REGISTER # address_bytes addr @ [lr])"
  "one_frame b (snd (m25px16_read_lock_register T addr b)) (CMD_READ_LOCK_REGISTER # address_bytes addr @ [0])"
  "one_frame b (m25px16_sector_erase T addr b) (sector_erase_bytes addr)"
  "one_frame b (m25px16_bulk_erase T b) [CMD_BULK_ERASE]"
  "one_frame b (m25px16_deep_power_down T b) [CMD_DEEP_POWER_DOWN]"
  "one_frame b (m25px16_release_from_deep_power_down T b) [CMD_RELEASE_FROM_DEEP_POWER_DOWN]"
  by (simp_all add: one_frame_def emitted_def frame_def m25px16_defs Let_def split_beta
      SPI_simps sector_erase_bytes_def address_bytes_def)

subsection \<open>The three loops\<close>

lemma page_program_loop_trace:
  "\<exists>rs. length rs = n \<and>
     trace (m25p16_page_program_loop T i n buf b) =
       trace b @ map2 Transmitted (map buf [i..<i + n]) rs"
proof (induction n arbitrary: i b)
  case 0
  then show ?case by simp
next
  case (Suc n)
  let ?b1 = "snd (SPI_TRANSMIT T (buf i) b)"
  from Suc.IH [of "Suc i" ?b1] obtain rs where
    rs: "length rs = n"
      "trace (m25p16_page_program_loop T (Suc i) n buf ?b1) =
         trace ?b1 @ map2 Transmitted (map buf [Suc i..<Suc i + n]) rs"
    by blast
  have "[i..<i + Suc n] = i # [Suc i..<Suc i + n]"
    by (simp add: upt_conv_Cons)
  with rs show ?case
    by (intro exI [of _ "fst (spi_transmit T (buf i) (dev b)) # rs"])
       (simp add: trace_SPI_TRANSMIT del: upt_Suc)
qed

lemma read_data_bytes_loop_trace:
  "\<exists>rs. length rs = n \<and>
     trace (snd (m25p16_read_data_bytes_loop T i n buf b)) =
       trace b @ map2 Transmitted (replicate n 0) rs \<and>
     (\<forall>k. fst (m25p16_read_data_bytes_loop T i n buf b) k =
       (if i \<le> k \<and> k < i + n then rs ! (k - i) else buf k))"
proof (induction n arbitrary: i b buf)
  case 0
  then show ?case by auto
next
  case (Suc n)
  let ?r = "fst (spi_transmit T 0 (dev b))"
  let ?b1 = "snd (SPI_TRANSMIT T 0 b)"
  from Suc.IH [of "Suc i" "buf(i := ?r)" ?b1] obtain rs where
    rs: "length rs = n"
      "trace (snd (m25p16_read_data_bytes_loop T (Suc i) n (buf(i := ?r)) ?b1)) =
         trace ?b1 @ map2 Transmitted (replicate n 0) rs"
      "\<And>k. fst (m25p16_read_data_bytes_loop T (Suc i) n (buf(i := ?r)) ?b1) k =
         (if Suc i \<le> k \<and> k < Suc i + n then rs ! (k - Suc i) else (buf(i := ?r)) k)"
    by blast
  have step: "m25p16_read_data_bytes_loop T i (Suc n) buf b =
      m25p16_read_data_bytes_loop T (Suc i) n (buf(i := ?r)) ?b1"
    by (simp add: split_beta fst_SPI_TRANSMIT)
  show ?case
  proof (intro exI [of _ "?r # rs"] conjI allI)
    show "length (?r # rs) = Suc n" using rs(1) by simp
    show "trace (snd (m25p16_read_data_bytes_loop T i (Suc n) buf b)) =
        trace b @ map2 Transmitted (replicate (Suc n) 0) (?r # rs)"
      unfolding step by (simp add: rs(2) trace_SPI_TRANSMIT)
    show "fst (m25p16_read_data_bytes_loop T i (Suc n) buf b) k =
        (if i \<le> k \<and> k < i + Suc n then (?r # rs) ! (k - i) else buf k)" for k
      unfolding step rs(3)
      by (auto simp: nth_Cons' Suc_diff_Suc)
  qed
qed

lemma read_identification_loop_trace:
  "\<exists>rs. length rs = n \<and>
     trace (snd (m25p16_read_identification_loop T i n p b)) =
       trace b @ map2 Transmitted (replicate n 0) rs \<and>
     (\<forall>k. cfd_content (fst (m25p16_read_identification_loop T i n p b)) k =
       (if i \<le> k \<and> k < i + n then rs ! (k - i) else cfd_content p k)) \<and>
     manufacturer (fst (m25p16_read_identification_loop T i n p b)) = manufacturer p \<and>
     memory_type (fst (m25p16_read_identification_loop T i n p b)) = memory_type p \<and>
     memory_capacity (fst (m25p16_read_identification_loop T i n p b)) = memory_capacity p \<and>
     cfd_length (fst (m25p16_read_identification_loop T i n p b)) = cfd_length p"
proof (induction n arbitrary: i b p)
  case 0
  then show ?case by auto
next
  case (Suc n)
  let ?r = "fst (spi_transmit T 0 (dev b))"
  let ?b1 = "snd (SPI_TRANSMIT T 0 b)"
  let ?p1 = "p\<lparr>cfd_content := (cfd_content p)(i := ?r)\<rparr>"
  let ?res = "m25p16_read_identification_loop T (Suc i) n ?p1 ?b1"
  from Suc.IH [of "Suc i" ?p1 ?b1] obtain rs where
    rs: "length rs = n"
      "trace (snd ?res) = trace ?b1 @ map2 Transmitted (replicate n 0) rs"
      "\<And>k. cfd_content (fst ?res) k =
         (if Suc i \<le> k \<and> k < Suc i + n then rs ! (k - Suc i) else cfd_content ?p1 k)"
      "manufacturer (fst ?res) = manufacturer ?p1"
      "memory_type (fst ?res) = memory_type ?p1"
      "memory_capacity (fst ?res) = memory_capacity ?p1"
      "cfd_length (fst ?res) = cfd_length ?p1"
    by blast
  have step: "m25p16_read_identification_loop T i (Suc n) p b = ?res"
    by (simp add: split_beta fst_SPI_TRANSMIT)
  show ?case
  proof (intro exI [of _ "?r # rs"] conjI allI)
    show "length (?r # rs) = Suc n" using rs(1) by simp
    show "trace (snd (m25p16_read_identification_loop T i (Suc n) p b)) =
        trace b @ map2 Transmitted (replicate (Suc n) 0) (?r # rs)"
      unfolding step by (simp add: rs(2) trace_SPI_TRANSMIT)
    show "cfd_content (fst (m25p16_read_identification_loop T i (Suc n) p b)) k =
        (if i \<le> k \<and> k < i + Suc n then (?r # rs) ! (k - i) else cfd_content p k)" for k
      unfolding step rs(3)
      by (auto simp: nth_Cons' Suc_diff_Suc)
  qed (simp_all only: step rs, simp_all)
qed

subsection \<open>Address bytes\<close>

lemma unat_addr_byte: "unat (addr_byte n w) = (unat w div 2 ^ n) mod 256"
proof -
  have "unat (addr_byte n w) = take_bit 8 (drop_bit n (unat w))"
    by (simp add: addr_byte_def unsigned_ucast_eq unat_drop_bit_eq)
  then show ?thesis
    by (simp add: take_bit_eq_mod drop_bit_eq_div)
qed

lemma split_24: 
  fixes n :: nat
  assumes "n < 16777216"
  shows "n div 65536 mod 256 * 65536 + n div 256 mod 256 * 256 + n mod 256 = n"
proof -
  have "n mod (65536 * 256) = 65536 * (n div 65536 mod 256) + n mod 65536"
    by (rule mod_mult2_eq)
  moreover have "n mod (256 * 256) = 256 * (n div 256 mod 256) + n mod 256"
    by (rule mod_mult2_eq)
  moreover have "n mod (65536 * 256) = n" using assms by simp
  ultimately show ?thesis by simp
qed

lemma shifted_16:
  fixes n :: nat
  shows "(65536 * n) mod 4294967296 div 65536 = n mod 65536"
proof -
  have "(65536 * n) mod (65536 * 65536) = 65536 * (n mod 65536)"
    by (rule mult_mod_right [symmetric])
  then show ?thesis by simp
qed

lemma shifted_16_low:
  fixes n :: nat
  shows "(65536 * n) mod 4294967296 mod 65536 = 0"
proof -
  have "(65536 * n) mod (65536 * 65536) = 65536 * (n mod 65536)"
    by (rule mult_mod_right [symmetric])
  then show ?thesis by simp
qed

lemma mod_65536_256: "(n::nat) mod 65536 mod 256 = n mod 256"
  by (rule mod_mod_cancel) simp

lemma unat_sector_address: "unat (M25P16_SECTOR_BYTE_SIZE * s) = (65536 * unat s) mod 4294967296"
  by (simp add: M25P16_SECTOR_BYTE_SIZE_def unat_word_ariths)

lemma addr_byte_16_sector: "addr_byte 16 (M25P16_SECTOR_BYTE_SIZE * s) = ucast s"
proof -
  have "unat (addr_byte 16 (M25P16_SECTOR_BYTE_SIZE * s)) = unat (ucast s :: u8)"
    by (simp add: unat_addr_byte unat_sector_address unsigned_ucast_eq take_bit_eq_mod
        shifted_16 mod_65536_256)
  then show ?thesis by (simp only: word_unat_eq_iff)
qed

lemma shifted_8:
  fixes n :: nat
  shows "(65536 * n) mod 4294967296 div 256 mod 256 = 0"
proof -
  have "(65536 * n) mod (65536 * 65536) = 65536 * (n mod 65536)"
    by (rule mult_mod_right [symmetric])
  then have "(65536 * n) mod 4294967296 = 256 * (256 * (n mod 65536))" by simp
  then have "(65536 * n) mod 4294967296 div 256 = 256 * (n mod 65536)"
    by (simp only: nonzero_mult_div_cancel_left)
  then show ?thesis by simp
qed

lemma addr_byte_8_sector: "addr_byte 8 (M25P16_SECTOR_BYTE_SIZE * s) = 0"
proof -
  have "unat (addr_byte 8 (M25P16_SECTOR_BYTE_SIZE * s)) = unat (0 :: u8)"
    by (simp add: unat_addr_byte unat_sector_address shifted_8)
  then show ?thesis by (simp only: word_unat_eq_iff)
qed

lemma big_endian_addr_bytes: "unat (w::u32) < 2^24 \<Longrightarrow> unat (addr_byte 16 w) * 65536 + unat (addr_byte 8 w) * 256 + unat (addr_byte 0 w) = unat w"
  using split_24 [of "unat w"] by (simp add: unat_addr_byte)


subsection \<open>The commands with a loop\<close>

lemma m25p16_page_program_frame:
  "one_frame b (m25p16_page_program T addr buf siz b) (page_program_bytes addr buf siz)"
proof -
  let ?b5 = "snd (SPI_TRANSMIT T (addr_byte 0 addr) (snd (SPI_TRANSMIT T (addr_byte 8 addr)
    (snd (SPI_TRANSMIT T (addr_byte 16 addr) (snd (SPI_TRANSMIT T CMD_PAGE_PROGRAM
    (SPI_ASSERT T b))))))))"
  obtain rs where "length rs = unat siz"
    "trace (m25p16_page_program_loop T 0 (unat siz) buf ?b5) =
       trace ?b5 @ map2 Transmitted (map buf [0..<0 + unat siz]) rs"
    using page_program_loop_trace [of "unat siz" T 0 buf ?b5] by blast
  then show ?thesis
    by (simp add: one_frame_def emitted_def frame_def m25p16_page_program_def Let_def
        SPI_simps received_bytes_transfers page_program_bytes_def address_bytes_def)
qed

lemma m25px16_page_program_eq: "m25px16_page_program = m25p16_page_program"
  by (intro ext) (simp add: m25px16_page_program_def m25p16_page_program_def)

lemma m25px16_read_data_bytes_eq: "m25px16_read_data_bytes = m25p16_read_data_bytes"
  by (intro ext) (simp add: m25px16_read_data_bytes_def m25p16_read_data_bytes_def)

lemma m25px16_read_identification_eq: "m25px16_read_identification = m25p16_read_identification"
  by (intro ext) (simp add: m25px16_read_identification_def m25p16_read_identification_def)

lemma m25p16_read_data_bytes_frame:
  "one_frame b (snd (m25p16_read_data_bytes T addr buf siz b))
     (CMD_READ_DATA_BYTES # address_bytes addr @ replicate (unat siz) 0)"
  and m25p16_read_data_bytes_result:
  "k < unat siz \<Longrightarrow> fst (m25p16_read_data_bytes T addr buf siz b) k =
      received_bytes (emitted b (snd (m25p16_read_data_bytes T addr buf siz b))) ! (4 + k)"
  and m25p16_read_data_bytes_rest:
  "unat siz \<le> k \<Longrightarrow> fst (m25p16_read_data_bytes T addr buf siz b) k = buf k"
proof -
  let ?b5 = "snd (SPI_TRANSMIT T (addr_byte 0 addr) (snd (SPI_TRANSMIT T (addr_byte 8 addr)
    (snd (SPI_TRANSMIT T (addr_byte 16 addr) (snd (SPI_TRANSMIT T CMD_READ_DATA_BYTES
    (SPI_ASSERT T b))))))))"
  let ?loop = "m25p16_read_data_bytes_loop T 0 (unat siz) buf ?b5"
  obtain rs where rs: "length rs = unat siz"
    "trace (snd ?loop) = trace ?b5 @ map2 Transmitted (replicate (unat siz) 0) rs"
    "\<And>k. fst ?loop k = (if 0 \<le> k \<and> k < 0 + unat siz then rs ! (k - 0) else buf k)"
    using read_data_bytes_loop_trace [of "unat siz" T 0 buf ?b5] by blast
  from rs(1,2) show "one_frame b (snd (m25p16_read_data_bytes T addr buf siz b))
     (CMD_READ_DATA_BYTES # address_bytes addr @ replicate (unat siz) 0)"
    by (simp add: one_frame_def emitted_def frame_def m25p16_read_data_bytes_def Let_def
        SPI_simps received_bytes_transfers address_bytes_def split_beta)
  from rs(1,2) have recv: "received_bytes (emitted b (snd (m25p16_read_data_bytes T addr buf siz b)))
      = [fst (spi_transmit T CMD_READ_DATA_BYTES (spi_assert T (dev b))),
         fst (spi_transmit T (addr_byte 16 addr) (dev (snd (SPI_TRANSMIT T CMD_READ_DATA_BYTES (SPI_ASSERT T b))))),
         fst (spi_transmit T (addr_byte 8 addr) (dev (snd (SPI_TRANSMIT T (addr_byte 16 addr) (snd (SPI_TRANSMIT T CMD_READ_DATA_BYTES (SPI_ASSERT T b))))))),
         fst (spi_transmit T (addr_byte 0 addr) (dev (snd (SPI_TRANSMIT T (addr_byte 8 addr) (snd (SPI_TRANSMIT T (addr_byte 16 addr) (snd (SPI_TRANSMIT T CMD_READ_DATA_BYTES (SPI_ASSERT T b)))))))))] @ rs"
    by (simp add: emitted_def m25p16_read_data_bytes_def Let_def
        trace_SPI_ASSERT trace_SPI_DEASSERT trace_SPI_TRANSMIT dev_SPI_ASSERT received_bytes_transfers split_beta)
  have res: "fst (m25p16_read_data_bytes T addr buf siz b) = fst ?loop"
    by (simp add: m25p16_read_data_bytes_def Let_def split_beta)
  show "k < unat siz \<Longrightarrow> fst (m25p16_read_data_bytes T addr buf siz b) k =
      received_bytes (emitted b (snd (m25p16_read_data_bytes T addr buf siz b))) ! (4 + k)"
    unfolding recv res by (simp add: rs(3) nth_append)
  show "unat siz \<le> k \<Longrightarrow> fst (m25p16_read_data_bytes T addr buf siz b) k = buf k"
    unfolding res by (simp add: rs(3))
qed

subsection \<open>The wait for the end of a cycle\<close>

lemma one_frame_trace:
  "one_frame b b' xs \<Longrightarrow>
     \<exists>rs. length rs = length xs \<and> trace b' = trace b @ frame xs rs"
  by (metis one_frame_def)

lemma read_status_register_status:
  "fst (m25p16_read_status_register T b) = fst (status_read T (dev b))"
  "dev (snd (m25p16_read_status_register T b)) = snd (status_read T (dev b))"
  by (simp_all add: m25p16_read_status_register_def status_read_def Let_def split_beta SPI_simps)

lemma read_status_register_trace:
  "\<exists>r. trace (snd (m25p16_read_status_register T b)) =
     trace b @ frame [CMD_READ_STATUS_REGISTER, 0] [r, fst (m25p16_read_status_register T b)]"
  by (simp add: m25p16_read_status_register_def Let_def split_beta SPI_simps frame_def)

lemma flash_wait_clears:
  "fst (flash_wait T fuel b) \<noteq> None \<longleftrightarrow> wip_clears_within T fuel (dev b)"
proof (induction fuel arbitrary: b)
  case 0
  then show ?case by simp
next
  case (Suc fuel)
  show ?case
    using Suc.IH [of "snd (m25p16_read_status_register T b)"]
    by (simp add: split_beta read_status_register_status)
qed

lemma flash_wait_frames:
  "\<exists>es ps. trace (snd (flash_wait T fuel b)) = trace b @ es \<and>
     (\<forall>rest fs. frames rest = Some fs \<longrightarrow> frames (es @ rest) = Some (ps @ fs)) \<and>
     (case fst (flash_wait T fuel b) of
        None \<Rightarrow> length ps = fuel \<and> list_all busy_poll ps
      | Some sreg \<Rightarrow> (\<forall>fs. polls_until_clear (ps @ fs) = Some fs))"
proof (induction fuel arbitrary: b)
  case 0
  show ?case
    by (rule exI [of _ "[]"], rule exI [of _ "[]"]) simp
next
  case (Suc fuel)
  let ?sreg = "fst (m25p16_read_status_register T b)"
  let ?b1 = "snd (m25p16_read_status_register T b)"
  obtain r where r: "trace ?b1 = trace b @ frame [CMD_READ_STATUS_REGISTER, 0] [r, ?sreg]"
    using read_status_register_trace by blast
  let ?f = "([CMD_READ_STATUS_REGISTER, 0], [r, ?sreg])"
  have sp: "status_poll ?f = Some ?sreg"
    by (simp add: status_poll_def)
  have fr: "frames (frame [CMD_READ_STATUS_REGISTER, 0] [r, ?sreg] @ rest) =
      (case frames rest of None \<Rightarrow> None | Some fs \<Rightarrow> Some (?f # fs))" for rest
    by (rule frames_frame_append) simp
  show ?case
  proof (cases "M25P16_SREG_WRITE_IN_PROGRESS ?sreg \<noteq> 0")
    case True
    then have step: "flash_wait T (Suc fuel) b = flash_wait T fuel ?b1"
      by (simp add: split_beta)
    from Suc.IH [of ?b1] obtain es ps where
      ih: "trace (snd (flash_wait T fuel ?b1)) = trace ?b1 @ es"
        "\<And>rest fs. frames rest = Some fs \<Longrightarrow> frames (es @ rest) = Some (ps @ fs)"
        "case fst (flash_wait T fuel ?b1) of
           None \<Rightarrow> length ps = fuel \<and> list_all busy_poll ps
         | Some sreg \<Rightarrow> (\<forall>fs. polls_until_clear (ps @ fs) = Some fs)"
      by blast
    show ?thesis
    proof (intro exI [of _ "frame [CMD_READ_STATUS_REGISTER, 0] [r, ?sreg] @ es"]
        exI [of _ "?f # ps"] conjI allI impI)
      show "trace (snd (flash_wait T (Suc fuel) b)) =
          trace b @ frame [CMD_READ_STATUS_REGISTER, 0] [r, ?sreg] @ es"
        unfolding step by (simp add: ih(1) r)
      show "frames ((frame [CMD_READ_STATUS_REGISTER, 0] [r, ?sreg] @ es) @ rest) =
          Some ((?f # ps) @ fs)" if "frames rest = Some fs" for rest fs
        using ih(2) [OF that] by (simp add: fr)
      show "case fst (flash_wait T (Suc fuel) b) of
          None \<Rightarrow> length (?f # ps) = Suc fuel \<and> list_all busy_poll (?f # ps)
        | Some sreg \<Rightarrow> (\<forall>fs. polls_until_clear ((?f # ps) @ fs) = Some fs)"
        unfolding step using ih(3) True
        by (simp add: sp busy_poll_def split: option.splits)
    qed
  next
    case False
    then have step: "flash_wait T (Suc fuel) b = (Some ?sreg, ?b1)"
      by (simp add: split_beta)
    show ?thesis
    proof (intro exI [of _ "frame [CMD_READ_STATUS_REGISTER, 0] [r, ?sreg]"]
        exI [of _ "[?f]"] conjI allI impI)
      show "trace (snd (flash_wait T (Suc fuel) b)) =
          trace b @ frame [CMD_READ_STATUS_REGISTER, 0] [r, ?sreg]"
        unfolding step by (simp add: r)
      show "frames (frame [CMD_READ_STATUS_REGISTER, 0] [r, ?sreg] @ rest) = Some ([?f] @ fs)"
        if "frames rest = Some fs" for rest fs
        using that by (simp add: fr)
      show "case fst (flash_wait T (Suc fuel) b) of
          None \<Rightarrow> length [?f] = Suc fuel \<and> list_all busy_poll [?f]
        | Some sreg \<Rightarrow> (\<forall>fs. polls_until_clear ([?f] @ fs) = Some fs)"
        unfolding step using False by (simp add: sp)
    qed
  qed
qed

lemma mutating_call:
  fixes f :: "'d bus \<Rightarrow> 'd bus" and T :: "'d transport" and fuel :: nat and b :: "'d bus"
  assumes f: "\<And>b. one_frame b (f b) cmd"
  defines "res \<equiv>
    (case flash_wait T fuel (f (m25p16_write_enable T b)) of
       (None, b3) \<Rightarrow> (None, b3)
     | (Some sreg, b3) \<Rightarrow> (Some (0::int), m25p16_write_disable T b3))"
  shows "trace (snd res) = trace b @ emitted b (snd res)"
    and "if wip_clears_within T fuel (dev (f (m25p16_write_enable T b)))
         then fst res = Some 0 \<and> completed_cycle cmd (emitted b (snd res))
         else fst res = None \<and> cycle_in_progress cmd fuel (emitted b (snd res))"
proof -
  let ?b1 = "m25p16_write_enable T b"
  let ?b2 = "f ?b1"
  let ?w = "flash_wait T fuel ?b2"
  obtain rs1 where rs1: "length rs1 = 1" "trace ?b1 = trace b @ frame [CMD_WRITE_ENABLE] rs1"
    using one_frame_trace [OF m25p16_frames(1)] by fastforce
  obtain rs2 where rs2: "length rs2 = length cmd" "trace ?b2 = trace ?b1 @ frame cmd rs2"
    using one_frame_trace [OF f] by blast
  obtain es ps where w: "trace (snd ?w) = trace ?b2 @ es"
    "\<And>rest fs. frames rest = Some fs \<Longrightarrow> frames (es @ rest) = Some (ps @ fs)"
    "case fst ?w of
        None \<Rightarrow> length ps = fuel \<and> list_all busy_poll ps
      | Some sreg \<Rightarrow> (\<forall>fs. polls_until_clear (ps @ fs) = Some fs)"
    using flash_wait_frames [of T fuel ?b2] by blast
  obtain rs4 where rs4: "length rs4 = 1"
    "trace (m25p16_write_disable T (snd ?w)) = trace (snd ?w) @ frame [CMD_WRITE_DISABLE] rs4"
    using one_frame_trace [OF m25p16_frames(2)] by fastforce
  have clears: "fst ?w \<noteq> None \<longleftrightarrow> wip_clears_within T fuel (dev ?b2)"
    by (rule flash_wait_clears)
  show "trace (snd res) = trace b @ emitted b (snd res)"
  proof (cases "fst ?w")
    case None
    then have "snd res = snd ?w" by (simp add: res_def split_beta)
    then show ?thesis by (simp add: emitted_def w(1) rs2(2) rs1(2))
  next
    case (Some s)
    then have "snd res = m25p16_write_disable T (snd ?w)" by (simp add: res_def split_beta)
    then show ?thesis by (simp add: emitted_def rs4(2) w(1) rs2(2) rs1(2))
  qed
  show "if wip_clears_within T fuel (dev ?b2)
         then fst res = Some 0 \<and> completed_cycle cmd (emitted b (snd res))
         else fst res = None \<and> cycle_in_progress cmd fuel (emitted b (snd res))"
  proof (cases "fst ?w")
    case None
    then have res: "res = (None, snd ?w)" by (simp add: res_def split_beta)
    have E: "emitted b (snd res) = frame [CMD_WRITE_ENABLE] rs1 @ frame cmd rs2 @ es @ []"
      by (simp add: res emitted_def w(1) rs2(2) rs1(2))
    have "frames (es @ []) = Some (ps @ [])"
      by (rule w(2)) (simp add: frames_Nil)
    then have F: "frames (emitted b (snd res)) =
        Some (([CMD_WRITE_ENABLE], rs1) # (cmd, rs2) # ps)"
      unfolding E by (simp add: frames_frame_append rs1(1) rs2(1))
    from w(3) None have "length ps = fuel" "list_all busy_poll ps" by simp_all
    then have "cycle_in_progress cmd fuel (emitted b (snd res))"
      by (simp add: cycle_in_progress_def F still_polling_def)
    with None clears show ?thesis by (simp add: res)
  next
    case (Some s)
    then have res: "res = (Some 0, m25p16_write_disable T (snd ?w))"
      by (simp add: res_def split_beta)
    have E: "emitted b (snd res) =
        frame [CMD_WRITE_ENABLE] rs1 @ frame cmd rs2 @ es @ frame [CMD_WRITE_DISABLE] rs4"
      by (simp add: res emitted_def rs4(2) w(1) rs2(2) rs1(2))
    have "frames (frame [CMD_WRITE_DISABLE] rs4) = Some [([CMD_WRITE_DISABLE], rs4)]"
      using frames_frame_append [of rs4 "[CMD_WRITE_DISABLE]" "[]"]
      by (simp add: rs4(1) frames_Nil)
    then have "frames (es @ frame [CMD_WRITE_DISABLE] rs4) =
        Some (ps @ [([CMD_WRITE_DISABLE], rs4)])"
      by (rule w(2))
    then have F: "frames (emitted b (snd res)) =
        Some (([CMD_WRITE_ENABLE], rs1) # (cmd, rs2) # ps @ [([CMD_WRITE_DISABLE], rs4)])"
      unfolding E by (simp add: frames_frame_append rs1(1) rs2(1))
    from w(3) Some have "polls_until_clear (ps @ [([CMD_WRITE_DISABLE], rs4)]) =
        Some [([CMD_WRITE_DISABLE], rs4)]" by simp
    then have "completed_cycle cmd (emitted b (snd res))"
      by (simp add: completed_cycle_def F mutating_sequence_def)
    with Some clears show ?thesis by (simp add: res)
  qed
qed


subsection \<open>Reading the identification\<close>

lemma trace_SPI_TRANSMIT_fst:
  "trace (snd (SPI_TRANSMIT T x b)) = trace b @ [Transmitted x (fst (SPI_TRANSMIT T x b))]"
  by (simp add: SPI_TRANSMIT_def split_beta)

lemma m25p16_read_identification_facts:
  fixes T :: "'d transport" and p :: m25p16_identification_t and b :: "'d bus"
  defines "res \<equiv> m25p16_read_identification T p b"
  defines "rs \<equiv> received_bytes (emitted b (snd res))"
  shows "one_frame b (snd res)
           (CMD_READ_IDENTIFICATION # replicate (4 + unat (cfd_length (fst res))) 0)"
    and "manufacturer (fst res) = rs ! 1"
    and "memory_type (fst res) = rs ! 2"
    and "memory_capacity (fst res) = rs ! 3"
    and "cfd_length (fst res) = rs ! 4"
    and "\<And>k. k < unat (cfd_length (fst res)) \<Longrightarrow> cfd_content (fst res) k = rs ! (5 + k)"
    and "\<And>k. unat (cfd_length (fst res)) \<le> k \<Longrightarrow> cfd_content (fst res) k = cfd_content p k"
proof -
  let ?b2 = "snd (SPI_TRANSMIT T CMD_READ_IDENTIFICATION (SPI_ASSERT T b))"
  let ?t1 = "SPI_TRANSMIT T 0 ?b2"
  let ?t2 = "SPI_TRANSMIT T 0 (snd ?t1)"
  let ?t3 = "SPI_TRANSMIT T 0 (snd ?t2)"
  let ?t4 = "SPI_TRANSMIT T 0 (snd ?t3)"
  let ?p4 = "p\<lparr>manufacturer := fst ?t1, memory_type := fst ?t2,
               memory_capacity := fst ?t3, cfd_length := fst ?t4\<rparr>"
  let ?n = "unat (fst ?t4)"
  let ?loop = "m25p16_read_identification_loop T 0 ?n ?p4 (snd ?t4)"
  have res: "res = (fst ?loop, SPI_DEASSERT T (snd ?loop))"
    by (simp add: res_def m25p16_read_identification_def Let_def split_beta)
  obtain ls where ls: "length ls = ?n"
    "trace (snd ?loop) = trace (snd ?t4) @ map2 Transmitted (replicate ?n 0) ls"
    "\<And>k. cfd_content (fst ?loop) k =
       (if 0 \<le> k \<and> k < 0 + ?n then ls ! (k - 0) else cfd_content ?p4 k)"
    "manufacturer (fst ?loop) = manufacturer ?p4"
    "memory_type (fst ?loop) = memory_type ?p4"
    "memory_capacity (fst ?loop) = memory_capacity ?p4"
    "cfd_length (fst ?loop) = cfd_length ?p4"
    using read_identification_loop_trace [of ?n T 0 ?p4 "snd ?t4"] by blast
  have len: "cfd_length (fst res) = fst ?t4"
    by (simp add: res ls(7))
  let ?r0 = "fst (SPI_TRANSMIT T CMD_READ_IDENTIFICATION (SPI_ASSERT T b))"
  let ?rs = "?r0 # fst ?t1 # fst ?t2 # fst ?t3 # fst ?t4 # ls"
  let ?xs = "CMD_READ_IDENTIFICATION # replicate (4 + ?n) 0"
  have tr: "trace (snd res) = trace b @ frame ?xs ?rs"
    by (simp add: res frame_def trace_SPI_DEASSERT ls(2) trace_SPI_TRANSMIT_fst
        trace_SPI_ASSERT numeral_eq_Suc)
  have lens: "length ?rs = length ?xs"
    using ls(1) by simp
  have rs: "rs = ?rs"
    unfolding rs_def emitted_append [OF tr] by (rule received_bytes_frame [OF lens])
  show "one_frame b (snd res)
           (CMD_READ_IDENTIFICATION # replicate (4 + unat (cfd_length (fst res))) 0)"
    unfolding len by (rule one_frameI [OF lens tr])
  show "manufacturer (fst res) = rs ! 1" by (simp add: res ls(4) rs)
  show "memory_type (fst res) = rs ! 2" by (simp add: res ls(5) rs)
  show "memory_capacity (fst res) = rs ! 3" by (simp add: res ls(6) rs numeral_3_eq_3)
  show "cfd_length (fst res) = rs ! 4" by (simp add: len rs numeral_eq_Suc)
  show "cfd_content (fst res) k = rs ! (5 + k)" if "k < unat (cfd_length (fst res))" for k
    using that unfolding len by (simp add: res ls(3) rs numeral_eq_Suc)
  show "cfd_content (fst res) k = cfd_content p k" if "unat (cfd_length (fst res)) \<le> k" for k
    using that unfolding len by (simp add: res ls(3))
qed

section \<open>The return value of the mutating calls\<close>

text \<open>
  Claim C10. \<^verbatim>\<open>flash_sector_erase\<close> returns 0 for every sector index, and
  \<^verbatim>\<open>flash_page_write\<close> returns 0 for every page index whenever \<open>siz\<close> is at
  most the page size: the only failure is the local size check, and nothing the
  transport or the device does reaches the return value. Either call returns
  once the device shows the write in progress bit clear, which is within the
  fuel exactly when \<open>wip_clears_within\<close> holds of the device as the command
  has left it; with a device that keeps the bit set the source stays in its
  loop and returns nothing.
\<close>

theorem facade_mutators_return_zero:
  "fst (flash_sector_erase T fuel sector b) =
     (if wip_clears_within T fuel
           (dev (m25p16_sector_erase T (M25P16_SECTOR_BYTE_SIZE * sector)
                  (m25p16_write_enable T b)))
      then Some 0 else None) \<and>
   fst (flash_page_write T fuel page buf siz b) =
     (if M25P16_PAGE_BYTE_SIZE < siz then Some (- 1)
      else if wip_clears_within T fuel
           (dev (m25p16_page_program T (M25P16_PAGE_BYTE_SIZE * page) buf siz
                  (m25p16_write_enable T b)))
      then Some 0 else None)"
proof
  show "fst (flash_sector_erase T fuel sector b) =
     (if wip_clears_within T fuel
           (dev (m25p16_sector_erase T (M25P16_SECTOR_BYTE_SIZE * sector)
                  (m25p16_write_enable T b)))
      then Some 0 else None)"
    using mutating_call(2) [of "m25p16_sector_erase T (M25P16_SECTOR_BYTE_SIZE * sector)"
        "sector_erase_bytes (M25P16_SECTOR_BYTE_SIZE * sector)" T fuel b]
    by (simp add: flash_sector_erase_def Let_def m25p16_frames split: if_splits)
  show "fst (flash_page_write T fuel page buf siz b) =
     (if M25P16_PAGE_BYTE_SIZE < siz then Some (- 1)
      else if wip_clears_within T fuel
           (dev (m25p16_page_program T (M25P16_PAGE_BYTE_SIZE * page) buf siz
                  (m25p16_write_enable T b)))
      then Some 0 else None)"
    using mutating_call(2) [of "m25p16_page_program T (M25P16_PAGE_BYTE_SIZE * page) buf siz"
        "page_program_bytes (M25P16_PAGE_BYTE_SIZE * page) buf siz" T fuel b]
    by (simp add: flash_page_write_def Let_def m25p16_page_program_frame split: if_splits)
qed

text \<open>
  On a scripted device whose third status byte is the first with bit 0 clear:
  three status reads are enough and two are not; a write of 257 bytes is
  refused whatever the device.
\<close>

theorem facade_mutators_return_zero_witness:
  "fst (flash_sector_erase scripted 3 40 (script [0, 0, 0, 0, 0, 0, 1, 0, 1, 0, 0])) = Some 0 \<and>
   fst (flash_sector_erase scripted 2 40 (script [0, 0, 0, 0, 0, 0, 1, 0, 1, 0, 0])) = None \<and>
   fst (flash_page_write scripted 1 9000 (buf_of [1, 2]) 2 (script [])) = Some 0 \<and>
   fst (flash_page_write scripted 2 0 (buf_of []) 257 (script [0, 0, 0, 0, 0, 0, 1, 0, 1, 0, 0]))
     = Some (- 1)"
proof -
  have "wip_clears_within scripted 3
      (dev (m25p16_sector_erase scripted (M25P16_SECTOR_BYTE_SIZE * 40)
             (m25p16_write_enable scripted (script [0, 0, 0, 0, 0, 0, 1, 0, 1, 0, 0]))))"
    by code_simp
  moreover have "\<not> wip_clears_within scripted 2
      (dev (m25p16_sector_erase scripted (M25P16_SECTOR_BYTE_SIZE * 40)
             (m25p16_write_enable scripted (script [0, 0, 0, 0, 0, 0, 1, 0, 1, 0, 0]))))"
    by code_simp
  moreover have "wip_clears_within scripted 1
      (dev (m25p16_page_program scripted (M25P16_PAGE_BYTE_SIZE * 9000) (buf_of [1, 2]) 2
             (m25p16_write_enable scripted (script []))))"
    by code_simp
  moreover have "M25P16_PAGE_BYTE_SIZE < 257" "\<not> M25P16_PAGE_BYTE_SIZE < 2"
    by (simp_all add: M25P16_PAGE_BYTE_SIZE_def)
  ultimately show ?thesis
    using
      facade_mutators_return_zero [of scripted 3 40 "script [0, 0, 0, 0, 0, 0, 1, 0, 1, 0, 0]"
        9000 "buf_of [1, 2]" 2]
      facade_mutators_return_zero [of scripted 2 40 "script [0, 0, 0, 0, 0, 0, 1, 0, 1, 0, 0]"
        0 "buf_of []" 257]
      facade_mutators_return_zero [of scripted 1 40 "script []" 9000 "buf_of [1, 2]" 2]
    by (simp only: if_True if_False simp_thms)
qed

lemma completed_cycle_sent:
  assumes "completed_cycle cmd es"
  shows "sent_in_frame 0 es = [CMD_WRITE_ENABLE]" and "sent_in_frame 1 es = cmd"
  using assms
  by (auto simp: completed_cycle_def sent_in_frame_def mutating_sequence_def
      split: option.splits list.splits)

lemma cycle_in_progress_sent:
  assumes "cycle_in_progress cmd n es"
  shows "sent_in_frame 0 es = [CMD_WRITE_ENABLE]" and "sent_in_frame 1 es = cmd"
  using assms
  by (auto simp: cycle_in_progress_def sent_in_frame_def still_polling_def
      split: option.splits list.splits)

lemma flash_sector_erase_cycle:
  "trace (snd (flash_sector_erase T fuel sector b)) =
     trace b @ emitted b (snd (flash_sector_erase T fuel sector b))"
  "if wip_clears_within T fuel
        (dev (m25p16_sector_erase T (M25P16_SECTOR_BYTE_SIZE * sector) (m25p16_write_enable T b)))
   then fst (flash_sector_erase T fuel sector b) = Some 0 \<and>
        completed_cycle (sector_erase_bytes (M25P16_SECTOR_BYTE_SIZE * sector))
          (emitted b (snd (flash_sector_erase T fuel sector b)))
   else fst (flash_sector_erase T fuel sector b) = None \<and>
        cycle_in_progress (sector_erase_bytes (M25P16_SECTOR_BYTE_SIZE * sector)) fuel
          (emitted b (snd (flash_sector_erase T fuel sector b)))"
  using mutating_call [of "m25p16_sector_erase T (M25P16_SECTOR_BYTE_SIZE * sector)"
      "sector_erase_bytes (M25P16_SECTOR_BYTE_SIZE * sector)" T fuel b]
  by (simp_all add: flash_sector_erase_def Let_def m25p16_frames)

lemma flash_page_write_cycle:
  assumes "siz \<le> M25P16_PAGE_BYTE_SIZE"
  shows "trace (snd (flash_page_write T fuel page buf siz b)) =
     trace b @ emitted b (snd (flash_page_write T fuel page buf siz b))"
  and "if wip_clears_within T fuel
        (dev (m25p16_page_program T (M25P16_PAGE_BYTE_SIZE * page) buf siz
               (m25p16_write_enable T b)))
   then fst (flash_page_write T fuel page buf siz b) = Some 0 \<and>
        completed_cycle (page_program_bytes (M25P16_PAGE_BYTE_SIZE * page) buf siz)
          (emitted b (snd (flash_page_write T fuel page buf siz b)))
   else fst (flash_page_write T fuel page buf siz b) = None \<and>
        cycle_in_progress (page_program_bytes (M25P16_PAGE_BYTE_SIZE * page) buf siz) fuel
          (emitted b (snd (flash_page_write T fuel page buf siz b)))"
  using mutating_call [of "m25p16_page_program T (M25P16_PAGE_BYTE_SIZE * page) buf siz"
      "page_program_bytes (M25P16_PAGE_BYTE_SIZE * page) buf siz" T fuel b] assms
  by (simp_all add: flash_page_write_def Let_def m25p16_page_program_frame not_less [symmetric])

section \<open>The order of the commands in a mutating call\<close>

text \<open>
  Claim C1. Every mutating call of the facade (\<^verbatim>\<open>flash_sector_erase\<close> on
  any sector, \<^verbatim>\<open>flash_page_write\<close> on any page with \<open>siz\<close> at most the
  page size) issues exactly these commands, in this order and with nothing in
  between: write enable, the mutating command, one or more reads of the status
  register up to the first that shows the write in progress bit clear, write
  disable. That is the trace of the call when the device clears the bit
  within the fuel; when it does not, the call is still in its loop, and its
  trace is write enable, the command, and as many status reads as the fuel,
  all showing the bit set.
\<close>

theorem mutating_calls_follow_protocol:
  "trace (snd (flash_sector_erase T fuel sector b)) =
     trace b @ emitted b (snd (flash_sector_erase T fuel sector b)) \<and>
   (if wip_clears_within T fuel
        (dev (m25p16_sector_erase T (M25P16_SECTOR_BYTE_SIZE * sector) (m25p16_write_enable T b)))
    then completed_cycle (sector_erase_bytes (M25P16_SECTOR_BYTE_SIZE * sector))
           (emitted b (snd (flash_sector_erase T fuel sector b)))
    else cycle_in_progress (sector_erase_bytes (M25P16_SECTOR_BYTE_SIZE * sector)) fuel
           (emitted b (snd (flash_sector_erase T fuel sector b)))) \<and>
   (siz \<le> M25P16_PAGE_BYTE_SIZE \<longrightarrow>
      trace (snd (flash_page_write T fuel page buf siz b)) =
        trace b @ emitted b (snd (flash_page_write T fuel page buf siz b)) \<and>
      (if wip_clears_within T fuel
           (dev (m25p16_page_program T (M25P16_PAGE_BYTE_SIZE * page) buf siz
                  (m25p16_write_enable T b)))
       then completed_cycle (page_program_bytes (M25P16_PAGE_BYTE_SIZE * page) buf siz)
              (emitted b (snd (flash_page_write T fuel page buf siz b)))
       else cycle_in_progress (page_program_bytes (M25P16_PAGE_BYTE_SIZE * page) buf siz) fuel
              (emitted b (snd (flash_page_write T fuel page buf siz b)))))"
proof (intro conjI impI)
  show "trace (snd (flash_sector_erase T fuel sector b)) =
     trace b @ emitted b (snd (flash_sector_erase T fuel sector b))"
    by (rule flash_sector_erase_cycle(1))
  show "if wip_clears_within T fuel
        (dev (m25p16_sector_erase T (M25P16_SECTOR_BYTE_SIZE * sector) (m25p16_write_enable T b)))
    then completed_cycle (sector_erase_bytes (M25P16_SECTOR_BYTE_SIZE * sector))
           (emitted b (snd (flash_sector_erase T fuel sector b)))
    else cycle_in_progress (sector_erase_bytes (M25P16_SECTOR_BYTE_SIZE * sector)) fuel
           (emitted b (snd (flash_sector_erase T fuel sector b)))"
    using flash_sector_erase_cycle(2) [of T fuel sector b] by (simp split: if_splits)
next
  assume siz: "siz \<le> M25P16_PAGE_BYTE_SIZE"
  show "trace (snd (flash_page_write T fuel page buf siz b)) =
        trace b @ emitted b (snd (flash_page_write T fuel page buf siz b))"
    by (rule flash_page_write_cycle(1) [OF siz])
  show "if wip_clears_within T fuel
           (dev (m25p16_page_program T (M25P16_PAGE_BYTE_SIZE * page) buf siz
                  (m25p16_write_enable T b)))
       then completed_cycle (page_program_bytes (M25P16_PAGE_BYTE_SIZE * page) buf siz)
              (emitted b (snd (flash_page_write T fuel page buf siz b)))
       else cycle_in_progress (page_program_bytes (M25P16_PAGE_BYTE_SIZE * page) buf siz) fuel
              (emitted b (snd (flash_page_write T fuel page buf siz b)))"
    using flash_page_write_cycle(2) [OF siz, of T fuel page buf b] by (simp split: if_splits)
qed


text \<open>
  A sector erase on a scripted device that is busy for two status reads, and
  a page write cut off after one status read.
\<close>

theorem mutating_calls_follow_protocol_witness:
  "completed_cycle (sector_erase_bytes (M25P16_SECTOR_BYTE_SIZE * 31))
     (emitted (script [0, 0, 0, 0, 0, 0, 3, 0, 1, 0, 2])
        (snd (flash_sector_erase scripted 3 31 (script [0, 0, 0, 0, 0, 0, 3, 0, 1, 0, 2])))) \<and>
   frames (emitted (script [0, 0, 0, 0, 0, 0, 3, 0, 1, 0, 2])
        (snd (flash_sector_erase scripted 3 31 (script [0, 0, 0, 0, 0, 0, 3, 0, 1, 0, 2])))) =
     Some [([0x06], [0]), ([0xD8, 0x1F, 0, 0], [0, 0, 0, 0]), ([0x05, 0], [0, 3]),
           ([0x05, 0], [0, 1]), ([0x05, 0], [0, 2]), ([0x04], [0])] \<and>
   cycle_in_progress (page_program_bytes (M25P16_PAGE_BYTE_SIZE * 2) (buf_of [0xAA, 0xBB]) 2) 1
     (emitted (script [0, 0, 0, 0, 0, 0, 0, 0, 3, 0, 2])
        (snd (flash_page_write scripted 1 2 (buf_of [0xAA, 0xBB]) 2
               (script [0, 0, 0, 0, 0, 0, 0, 0, 3, 0, 2])))) \<and>
   frames (emitted (script [0, 0, 0, 0, 0, 0, 0, 0, 3, 0, 2])
        (snd (flash_page_write scripted 1 2 (buf_of [0xAA, 0xBB]) 2
               (script [0, 0, 0, 0, 0, 0, 0, 0, 3, 0, 2])))) =
     Some [([0x06], [0]), ([0x02, 0, 2, 0, 0xAA, 0xBB], [0, 0, 0, 0, 0, 0]), ([0x05, 0], [0, 3])]"
proof -
  have "wip_clears_within scripted 3
      (dev (m25p16_sector_erase scripted (M25P16_SECTOR_BYTE_SIZE * 31)
             (m25p16_write_enable scripted (script [0, 0, 0, 0, 0, 0, 3, 0, 1, 0, 2]))))"
    by code_simp
  moreover have "\<not> wip_clears_within scripted 1
      (dev (m25p16_page_program scripted (M25P16_PAGE_BYTE_SIZE * 2) (buf_of [0xAA, 0xBB]) 2
             (m25p16_write_enable scripted (script [0, 0, 0, 0, 0, 0, 0, 0, 3, 0, 2]))))"
    by code_simp
  moreover have "(2 :: u32) \<le> M25P16_PAGE_BYTE_SIZE"
    by (simp add: M25P16_PAGE_BYTE_SIZE_def)
  moreover have "frames (emitted (script [0, 0, 0, 0, 0, 0, 3, 0, 1, 0, 2])
        (snd (flash_sector_erase scripted 3 31 (script [0, 0, 0, 0, 0, 0, 3, 0, 1, 0, 2])))) =
     Some [([0x06], [0]), ([0xD8, 0x1F, 0, 0], [0, 0, 0, 0]), ([0x05, 0], [0, 3]),
           ([0x05, 0], [0, 1]), ([0x05, 0], [0, 2]), ([0x04], [0])]"
    by code_simp
  moreover have "frames (emitted (script [0, 0, 0, 0, 0, 0, 0, 0, 3, 0, 2])
        (snd (flash_page_write scripted 1 2 (buf_of [0xAA, 0xBB]) 2
               (script [0, 0, 0, 0, 0, 0, 0, 0, 3, 0, 2])))) =
     Some [([0x06], [0]), ([0x02, 0, 2, 0, 0xAA, 0xBB], [0, 0, 0, 0, 0, 0]), ([0x05, 0], [0, 3])]"
    by code_simp
  ultimately show ?thesis
    using
      mutating_calls_follow_protocol [of scripted 3 31 "script [0, 0, 0, 0, 0, 0, 3, 0, 1, 0, 2]"
        2 2 "buf_of [0xAA, 0xBB]"]
      mutating_calls_follow_protocol [of scripted 1 31 "script [0, 0, 0, 0, 0, 0, 0, 0, 3, 0, 2]"
        2 2 "buf_of [0xAA, 0xBB]"]
    by (simp only: if_True if_False simp_thms)
qed

section \<open>Sector indices beyond the last sector\<close>

lemma addr_byte_0_sector: "addr_byte 0 (M25P16_SECTOR_BYTE_SIZE * s) = 0"
proof -
  have "(65536 * unat s) mod 4294967296 mod 256 = 0"
    using shifted_16_low [of "unat s"] mod_65536_256 [of "(65536 * unat s) mod 4294967296"]
    by simp
  then have "unat (addr_byte 0 (M25P16_SECTOR_BYTE_SIZE * s)) = unat (0 :: u8)"
    by (simp add: unat_addr_byte unat_sector_address)
  then show ?thesis by (simp only: word_unat_eq_iff)
qed

lemma sector_erase_bytes_sector:
  "sector_erase_bytes (M25P16_SECTOR_BYTE_SIZE * s) = [CMD_SECTOR_ERASE, ucast s, 0, 0]"
  by (simp add: sector_erase_bytes_def address_bytes_def addr_byte_16_sector addr_byte_8_sector
      addr_byte_0_sector)

lemma low_24_of_sector_address:
  fixes n :: nat
  shows "(65536 * n) mod 4294967296 mod 16777216 = (n mod 256) * 65536"
proof -
  have "(65536 * n) mod 4294967296 mod 16777216 = (65536 * n) mod 16777216"
    by (rule mod_mod_cancel) simp
  moreover have "(65536 * n) mod (65536 * 256) = 65536 * (n mod 256)"
    by (rule mult_mod_right [symmetric])
  ultimately show ?thesis by simp
qed

text \<open>
  Claim C7. \<^verbatim>\<open>flash_sector_erase\<close> checks no bound: for every sector index,
  those from the sector count on too, it never refuses, computes the
  address as the 32-bit product of the sector size and the index, hands it to
  \<^verbatim>\<open>m25p16_sector_erase\<close>, which sends its low 24 bits as the three address
  bytes (the low byte of the index, then two zero bytes), and runs the whole
  sequence of write enable, erase, status reads and write disable.
\<close>

theorem sector_erase_takes_any_index:
  "fst (flash_sector_erase T fuel sector b) \<noteq> Some (- 1) \<and>
   unat (M25P16_SECTOR_BYTE_SIZE * sector) = (65536 * unat sector) mod 2 ^ 32 \<and>
   big_endian_24 [ucast sector, 0, 0] = unat (M25P16_SECTOR_BYTE_SIZE * sector) mod 2 ^ 24 \<and>
   sent_in_frame 1 (emitted b (snd (flash_sector_erase T fuel sector b))) =
     [CMD_SECTOR_ERASE, ucast sector, 0, 0] \<and>
   (if wip_clears_within T fuel
         (dev (m25p16_sector_erase T (M25P16_SECTOR_BYTE_SIZE * sector) (m25p16_write_enable T b)))
    then fst (flash_sector_erase T fuel sector b) = Some 0 \<and>
         completed_cycle [CMD_SECTOR_ERASE, ucast sector, 0, 0]
           (emitted b (snd (flash_sector_erase T fuel sector b)))
    else fst (flash_sector_erase T fuel sector b) = None \<and>
         cycle_in_progress [CMD_SECTOR_ERASE, ucast sector, 0, 0] fuel
           (emitted b (snd (flash_sector_erase T fuel sector b))))"
proof -
  let ?r = "flash_sector_erase T fuel sector b"
  let ?cmd = "[CMD_SECTOR_ERASE, ucast sector, 0, 0] :: u8 list"
  let ?clears = "wip_clears_within T fuel
         (dev (m25p16_sector_erase T (M25P16_SECTOR_BYTE_SIZE * sector) (m25p16_write_enable T b)))"
  have cyc: "if ?clears
      then fst ?r = Some 0 \<and> completed_cycle ?cmd (emitted b (snd ?r))
      else fst ?r = None \<and> cycle_in_progress ?cmd fuel (emitted b (snd ?r))"
    using flash_sector_erase_cycle(2) [of T fuel sector b]
    by (simp only: sector_erase_bytes_sector)
  have rc: "fst ?r \<noteq> Some (- 1)"
    using cyc by (cases ?clears) simp_all
  have sent: "sent_in_frame 1 (emitted b (snd ?r)) = ?cmd"
    using cyc
    by (cases ?clears) (auto dest: completed_cycle_sent(2) cycle_in_progress_sent(2))
  have addr: "unat (M25P16_SECTOR_BYTE_SIZE * sector) = (65536 * unat sector) mod 2 ^ 32"
    by (simp add: unat_sector_address)
  have be: "big_endian_24 [ucast sector, 0, 0] = unat (M25P16_SECTOR_BYTE_SIZE * sector) mod 2 ^ 24"
    by (simp add: unat_sector_address low_24_of_sector_address unsigned_ucast_eq take_bit_eq_mod)
  from rc addr be sent cyc show ?thesis by (intro conjI)
qed

text \<open>Sector 32, the first past the end: address bytes \<open>0x20, 0, 0\<close>.\<close>

theorem sector_erase_takes_any_index_witness:
  "fst (flash_sector_erase scripted 2 32 (script [0, 0, 0, 0, 0, 0, 1, 0, 0])) = Some 0 \<and>
   sent_in_frame 1 (emitted (script [0, 0, 0, 0, 0, 0, 1, 0, 0])
      (snd (flash_sector_erase scripted 2 32 (script [0, 0, 0, 0, 0, 0, 1, 0, 0])))) =
     [0xD8, 0x20, 0, 0] \<and>
   big_endian_24 [0x20, 0, 0] = 0x200000 \<and>
   completed_cycle [0xD8, 0x20, 0, 0]
     (emitted (script [0, 0, 0, 0, 0, 0, 1, 0, 0])
        (snd (flash_sector_erase scripted 2 32 (script [0, 0, 0, 0, 0, 0, 1, 0, 0]))))"
proof -
  have "wip_clears_within scripted 2
      (dev (m25p16_sector_erase scripted (M25P16_SECTOR_BYTE_SIZE * 32)
             (m25p16_write_enable scripted (script [0, 0, 0, 0, 0, 0, 1, 0, 0]))))"
    by code_simp
  moreover have "(ucast (32 :: u32) :: u8) = 0x20" "CMD_SECTOR_ERASE = 0xD8"
    by (simp_all add: CMD_SECTOR_ERASE_def)
  moreover have "big_endian_24 [0x20, 0, 0] = 0x200000"
    by simp
  ultimately show ?thesis
    using sector_erase_takes_any_index [of scripted 2 32 "script [0, 0, 0, 0, 0, 0, 1, 0, 0]"]
    by (simp only: if_True simp_thms)
qed

lemma flash_sector_erase_command:
  "sent_in_frame 1 (emitted b (snd (flash_sector_erase T fuel sector b))) =
     sector_erase_bytes (M25P16_SECTOR_BYTE_SIZE * sector)"
  using flash_sector_erase_cycle(2) [of T fuel sector b]
  by (auto dest: completed_cycle_sent(2) cycle_in_progress_sent(2) split: if_splits)

lemma flash_page_write_command:
  assumes "siz \<le> M25P16_PAGE_BYTE_SIZE"
  shows "sent_in_frame 0 (emitted b (snd (flash_page_write T fuel page buf siz b))) =
     [CMD_WRITE_ENABLE]"
    and "sent_in_frame 1 (emitted b (snd (flash_page_write T fuel page buf siz b))) =
     page_program_bytes (M25P16_PAGE_BYTE_SIZE * page) buf siz"
  using flash_page_write_cycle(2) [OF assms, of T fuel page buf b]
  by (auto dest: completed_cycle_sent cycle_in_progress_sent split: if_splits)

section \<open>The address of a sector on the wire\<close>

lemma unat_in_range_sector:
  assumes "sector < M25P16_SECTOR_COUNT"
  shows "unat (M25P16_SECTOR_BYTE_SIZE * sector) = unat sector * 65536"
proof -
  have "unat sector < 32"
    using assms by (simp add: M25P16_SECTOR_COUNT_def word_less_nat_alt)
  then have "65536 * unat sector < 4294967296" by simp
  then show ?thesis by (simp add: unat_sector_address)
qed

text \<open>
  Claim C5. For a sector index in range, \<^verbatim>\<open>flash_sector_erase\<close> computes
  the byte address as the index times the sector size, and the chip driver
  sends it as three bytes, the most significant first, right after the sector
  erase code. In particular sector 31 has the address \<open>0x1F0000\<close> and the
  address bytes \<open>0x1F, 0x00, 0x00\<close>.
\<close>

theorem sector_address_sent_big_endian:
  "(sector < M25P16_SECTOR_COUNT \<longrightarrow>
      unat (M25P16_SECTOR_BYTE_SIZE * sector) = unat sector * 65536 \<and>
      sent_in_frame 1 (emitted b (snd (flash_sector_erase T fuel sector b))) =
        CMD_SECTOR_ERASE # address_bytes (M25P16_SECTOR_BYTE_SIZE * sector) \<and>
      big_endian_24 (address_bytes (M25P16_SECTOR_BYTE_SIZE * sector)) = unat sector * 65536) \<and>
   sent_bytes (emitted b (m25p16_sector_erase T addr b)) =
     [CMD_SECTOR_ERASE, addr_byte 16 addr, addr_byte 8 addr, addr_byte 0 addr] \<and>
   M25P16_SECTOR_BYTE_SIZE * 31 = 0x1F0000 \<and>
   sent_in_frame 1 (emitted b (snd (flash_sector_erase T fuel 31 b))) = [0xD8, 0x1F, 0x00, 0x00]"
proof (intro conjI impI)
  assume range: "sector < M25P16_SECTOR_COUNT"
  show prod: "unat (M25P16_SECTOR_BYTE_SIZE * sector) = unat sector * 65536"
    by (rule unat_in_range_sector [OF range])
  show "sent_in_frame 1 (emitted b (snd (flash_sector_erase T fuel sector b))) =
        CMD_SECTOR_ERASE # address_bytes (M25P16_SECTOR_BYTE_SIZE * sector)"
    by (simp only: flash_sector_erase_command sector_erase_bytes_def)
  have "unat sector < 32"
    using range by (simp add: M25P16_SECTOR_COUNT_def word_less_nat_alt)
  then have "unat (M25P16_SECTOR_BYTE_SIZE * sector) < 2 ^ 24"
    by (simp add: prod)
  then show "big_endian_24 (address_bytes (M25P16_SECTOR_BYTE_SIZE * sector)) =
      unat sector * 65536"
    using big_endian_addr_bytes [of "M25P16_SECTOR_BYTE_SIZE * sector"]
    by (simp add: address_bytes_def prod)
next
  show "sent_bytes (emitted b (m25p16_sector_erase T addr b)) =
     [CMD_SECTOR_ERASE, addr_byte 16 addr, addr_byte 8 addr, addr_byte 0 addr]"
    using one_frame_sent [OF m25p16_frames(5), of b T addr]
    by (simp add: sector_erase_bytes_def address_bytes_def)
  show "M25P16_SECTOR_BYTE_SIZE * 31 = 0x1F0000"
    by (simp add: M25P16_SECTOR_BYTE_SIZE_def)
  show "sent_in_frame 1 (emitted b (snd (flash_sector_erase T fuel 31 b))) =
      [0xD8, 0x1F, 0x00, 0x00]"
    by (simp only: flash_sector_erase_command sector_erase_bytes_sector)
       (simp add: CMD_SECTOR_ERASE_def)
qed

text \<open>Sector 5, whose address is \<open>0x50000\<close>.\<close>

theorem sector_address_sent_big_endian_witness:
  "(5 :: u32) < M25P16_SECTOR_COUNT \<and>
   unat (M25P16_SECTOR_BYTE_SIZE * 5) = 0x50000 \<and>
   sent_in_frame 1 (emitted (script [])
      (snd (flash_sector_erase scripted 1 5 (script [])))) = [0xD8, 0x05, 0, 0] \<and>
   big_endian_24 [0x05, 0, 0] = 0x50000 \<and>
   sent_in_frame 1 (emitted (script [])
      (snd (flash_sector_erase scripted 1 31 (script [])))) = [0xD8, 0x1F, 0, 0]"
proof -
  have range: "(5 :: u32) < M25P16_SECTOR_COUNT"
    by (simp add: M25P16_SECTOR_COUNT_def)
  moreover have "address_bytes (M25P16_SECTOR_BYTE_SIZE * 5) = [0x05, 0, 0]"
    by (simp add: address_bytes_def addr_byte_def M25P16_SECTOR_BYTE_SIZE_def)
  moreover have "CMD_SECTOR_ERASE = 0xD8"
    by (simp add: CMD_SECTOR_ERASE_def)
  ultimately show ?thesis
    using sector_address_sent_big_endian [of 5 "script []" scripted 1 0]
    by simp
qed

section \<open>The size check\<close>

text \<open>
  Claim C2. For every page index and buffer, \<^verbatim>\<open>flash_page_write\<close> and
  \<^verbatim>\<open>flash_page_read\<close> with \<open>siz\<close> above the page size (256) return the
  nonzero size error and do nothing on the transport: the bus, device and
  trace, is as it was. With \<open>siz\<close> at most the page size the check passes
  and the operation goes ahead: the write opens with write enable and the page
  program command and never returns the size error, the read returns 0 after
  one read data bytes command of \<open>siz\<close> bytes.
\<close>

theorem oversize_requests_never_reach_the_bus:
  "(M25P16_PAGE_BYTE_SIZE < siz \<longrightarrow>
      flash_page_write T fuel page buf siz b = (Some (- 1), b) \<and>
      flash_page_read T page out siz b = (- 1, out, b)) \<and>
   (siz \<le> M25P16_PAGE_BYTE_SIZE \<longrightarrow>
      fst (flash_page_write T fuel page buf siz b) \<noteq> Some (- 1) \<and>
      sent_in_frame 0 (emitted b (snd (flash_page_write T fuel page buf siz b))) =
        [CMD_WRITE_ENABLE] \<and>
      sent_in_frame 1 (emitted b (snd (flash_page_write T fuel page buf siz b))) =
        page_program_bytes (M25P16_PAGE_BYTE_SIZE * page) buf siz \<and>
      fst (flash_page_read T page out siz b) = 0 \<and>
      one_frame b (snd (snd (flash_page_read T page out siz b)))
        (CMD_READ_DATA_BYTES # address_bytes (M25P16_PAGE_BYTE_SIZE * page) @
           replicate (unat siz) 0))"
proof (intro conjI impI)
  assume big: "M25P16_PAGE_BYTE_SIZE < siz"
  show "flash_page_write T fuel page buf siz b = (Some (- 1), b)"
    using big by (simp add: flash_page_write_def)
  show "flash_page_read T page out siz b = (- 1, out, b)"
    using big by (simp add: flash_page_read_def)
next
  assume small: "siz \<le> M25P16_PAGE_BYTE_SIZE"
  then have nb: "\<not> M25P16_PAGE_BYTE_SIZE < siz" by simp
  show "fst (flash_page_write T fuel page buf siz b) \<noteq> Some (- 1)"
    using flash_page_write_cycle(2) [OF small, of T fuel page buf b]
    by (auto split: if_splits)
  show "sent_in_frame 0 (emitted b (snd (flash_page_write T fuel page buf siz b))) =
        [CMD_WRITE_ENABLE]"
    by (rule flash_page_write_command(1) [OF small])
  show "sent_in_frame 1 (emitted b (snd (flash_page_write T fuel page buf siz b))) =
        page_program_bytes (M25P16_PAGE_BYTE_SIZE * page) buf siz"
    by (rule flash_page_write_command(2) [OF small])
  show "fst (flash_page_read T page out siz b) = 0"
    using nb by (simp add: flash_page_read_def split_beta)
  show "one_frame b (snd (snd (flash_page_read T page out siz b)))
        (CMD_READ_DATA_BYTES # address_bytes (M25P16_PAGE_BYTE_SIZE * page) @
           replicate (unat siz) 0)"
    using nb m25p16_read_data_bytes_frame [of b T "M25P16_PAGE_BYTE_SIZE * page" out siz]
    by (simp add: flash_page_read_def split_beta)
qed

text \<open>257 bytes are refused and the bus is untouched; 256 bytes go through.\<close>

theorem oversize_requests_never_reach_the_bus_witness:
  "M25P16_PAGE_BYTE_SIZE < 257 \<and>
   flash_page_write scripted 4 0 (buf_of [0xAA, 0xBB]) 257 (script [7, 7]) =
     (Some (- 1), script [7, 7]) \<and>
   flash_page_read scripted 0 (buf_of []) 257 (script [7, 7]) = (- 1, buf_of [], script [7, 7]) \<and>
   (256 :: u32) \<le> M25P16_PAGE_BYTE_SIZE \<and>
   fst (flash_page_write scripted 4 0 (buf_of [0xAA, 0xBB]) 256 (script [7, 7])) \<noteq> Some (- 1) \<and>
   sent_in_frame 0 (emitted (script [7, 7])
      (snd (flash_page_write scripted 4 0 (buf_of [0xAA, 0xBB]) 256 (script [7, 7])))) = [0x06] \<and>
   fst (flash_page_read scripted 0 (buf_of []) 256 (script [7, 7])) = 0"
proof -
  have "M25P16_PAGE_BYTE_SIZE < 257" "(256 :: u32) \<le> M25P16_PAGE_BYTE_SIZE"
    by (simp_all add: M25P16_PAGE_BYTE_SIZE_def)
  moreover have "CMD_WRITE_ENABLE = 0x06"
    by (simp add: CMD_WRITE_ENABLE_def)
  ultimately show ?thesis
    using
      oversize_requests_never_reach_the_bus [of 257 scripted 4 0 "buf_of [0xAA, 0xBB]"
        "script [7, 7]" "buf_of []"]
      oversize_requests_never_reach_the_bus [of 256 scripted 4 0 "buf_of [0xAA, 0xBB]"
        "script [7, 7]" "buf_of []"]
    by simp
qed

section \<open>The command codes on the wire\<close>

lemma one_frame_first_sent:
  "one_frame b b' (c # xs) \<Longrightarrow> take 1 (sent_bytes (emitted b b')) = [c]"
  by (simp add: one_frame_sent)

lemma driver_frames:
  "one_frame b (m25p16_write_enable T b) [CMD_WRITE_ENABLE]"
  "one_frame b (m25p16_write_disable T b) [CMD_WRITE_DISABLE]"
  "one_frame b (snd (m25p16_read_identification T p b))
     (CMD_READ_IDENTIFICATION #
        replicate (4 + unat (cfd_length (fst (m25p16_read_identification T p b)))) 0)"
  "one_frame b (snd (m25p16_read_status_register T b)) [CMD_READ_STATUS_REGISTER, 0]"
  "one_frame b (m25p16_write_status_register T sreg b) [CMD_WRITE_STATUS_REGISTER, sreg]"
  "one_frame b (snd (m25p16_read_data_bytes T addr out siz b))
     (CMD_READ_DATA_BYTES # address_bytes addr @ replicate (unat siz) 0)"
  "one_frame b (m25p16_page_program T addr buf siz b)
     (CMD_PAGE_PROGRAM # address_bytes addr @ map buf [0..<unat siz])"
  "one_frame b (m25p16_sector_erase T addr b) (CMD_SECTOR_ERASE # address_bytes addr)"
  "one_frame b (m25p16_bulk_erase T b) [CMD_BULK_ERASE]"
  "one_frame b (m25p16_deep_power_down T b) [CMD_DEEP_POWER_DOWN]"
  "one_frame b (m25p16_release_from_deep_power_down T b) [CMD_RELEASE_FROM_DEEP_POWER_DOWN]"
  "one_frame b (m25px16_write_enable T b) [CMD_WRITE_ENABLE]"
  "one_frame b (m25px16_write_disable T b) [CMD_WRITE_DISABLE]"
  "one_frame b (snd (m25px16_read_identification T p b))
     (CMD_READ_IDENTIFICATION #
        replicate (4 + unat (cfd_length (fst (m25px16_read_identification T p b)))) 0)"
  "one_frame b (snd (m25px16_read_status_register T b)) [CMD_READ_STATUS_REGISTER, 0]"
  "one_frame b (m25px16_write_status_register T sreg b) [CMD_WRITE_STATUS_REGISTER, sreg]"
  "one_frame b (m25px16_write_lock_register T addr lr b)
     (CMD_WRITE_LOCK_REGISTER # address_bytes addr @ [lr])"
  "one_frame b (snd (m25px16_read_lock_register T addr b))
     (CMD_READ_LOCK_REGISTER # address_bytes addr @ [0])"
  "one_frame b (snd (m25px16_read_data_bytes T addr out siz b))
     (CMD_READ_DATA_BYTES # address_bytes addr @ replicate (unat siz) 0)"
  "one_frame b (m25px16_page_program T addr buf siz b)
     (CMD_PAGE_PROGRAM # address_bytes addr @ map buf [0..<unat siz])"
  "one_frame b (m25px16_sector_erase T addr b) (CMD_SECTOR_ERASE # address_bytes addr)"
  "one_frame b (m25px16_bulk_erase T b) [CMD_BULK_ERASE]"
  "one_frame b (m25px16_deep_power_down T b) [CMD_DEEP_POWER_DOWN]"
  "one_frame b (m25px16_release_from_deep_power_down T b) [CMD_RELEASE_FROM_DEEP_POWER_DOWN]"
  using m25p16_frames [of b T] m25px16_frames [of b T]
    m25p16_read_identification_facts(1) [of b T p]
    m25p16_read_data_bytes_frame [of b T addr out siz]
    m25p16_page_program_frame [of b T addr buf siz]
  by (simp_all only: m25px16_page_program_eq m25px16_read_data_bytes_eq
      m25px16_read_identification_eq sector_erase_bytes_def page_program_bytes_def)

text \<open>
  Claim C6. Every operation of the chip driver sends as its first byte the
  code the table of the spec gives it: write enable \<open>0x06\<close>, write disable
  \<open>0x04\<close>, read identification \<open>0x9F\<close>, read status register \<open>0x05\<close>,
  write status register \<open>0x01\<close>, read data bytes \<open>0x03\<close>, page program
  \<open>0x02\<close>, sector erase \<open>0xD8\<close>, bulk erase \<open>0xC7\<close>, deep power down
  \<open>0xB9\<close>, release from deep power down \<open>0xAB\<close>, and in the extended
  variant write lock register \<open>0xE5\<close> and read lock register \<open>0xE8\<close>.
\<close>

theorem first_byte_is_the_command_code:
  "take 1 (sent_bytes (emitted b (m25p16_write_enable T b))) = [0x06] \<and>
   take 1 (sent_bytes (emitted b (m25p16_write_disable T b))) = [0x04] \<and>
   take 1 (sent_bytes (emitted b (snd (m25p16_read_identification T p b)))) = [0x9F] \<and>
   take 1 (sent_bytes (emitted b (snd (m25p16_read_status_register T b)))) = [0x05] \<and>
   take 1 (sent_bytes (emitted b (m25p16_write_status_register T sreg b))) = [0x01] \<and>
   take 1 (sent_bytes (emitted b (snd (m25p16_read_data_bytes T addr out siz b)))) = [0x03] \<and>
   take 1 (sent_bytes (emitted b (m25p16_page_program T addr buf siz b))) = [0x02] \<and>
   take 1 (sent_bytes (emitted b (m25p16_sector_erase T addr b))) = [0xD8] \<and>
   take 1 (sent_bytes (emitted b (m25p16_bulk_erase T b))) = [0xC7] \<and>
   take 1 (sent_bytes (emitted b (m25p16_deep_power_down T b))) = [0xB9] \<and>
   take 1 (sent_bytes (emitted b (m25p16_release_from_deep_power_down T b))) = [0xAB] \<and>
   take 1 (sent_bytes (emitted b (m25px16_write_enable T b))) = [0x06] \<and>
   take 1 (sent_bytes (emitted b (m25px16_write_disable T b))) = [0x04] \<and>
   take 1 (sent_bytes (emitted b (snd (m25px16_read_identification T p b)))) = [0x9F] \<and>
   take 1 (sent_bytes (emitted b (snd (m25px16_read_status_register T b)))) = [0x05] \<and>
   take 1 (sent_bytes (emitted b (m25px16_write_status_register T sreg b))) = [0x01] \<and>
   take 1 (sent_bytes (emitted b (m25px16_write_lock_register T addr lr b))) = [0xE5] \<and>
   take 1 (sent_bytes (emitted b (snd (m25px16_read_lock_register T addr b)))) = [0xE8] \<and>
   take 1 (sent_bytes (emitted b (snd (m25px16_read_data_bytes T addr out siz b)))) = [0x03] \<and>
   take 1 (sent_bytes (emitted b (m25px16_page_program T addr buf siz b))) = [0x02] \<and>
   take 1 (sent_bytes (emitted b (m25px16_sector_erase T addr b))) = [0xD8] \<and>
   take 1 (sent_bytes (emitted b (m25px16_bulk_erase T b))) = [0xC7] \<and>
   take 1 (sent_bytes (emitted b (m25px16_deep_power_down T b))) = [0xB9] \<and>
   take 1 (sent_bytes (emitted b (m25px16_release_from_deep_power_down T b))) = [0xAB]"
  by (intro conjI)
     (simp_all only: one_frame_first_sent [OF driver_frames(1), unfolded CMD_defs]
       one_frame_first_sent [OF driver_frames(2), unfolded CMD_defs]
       one_frame_first_sent [OF driver_frames(3), unfolded CMD_defs]
       one_frame_first_sent [OF driver_frames(4), unfolded CMD_defs]
       one_frame_first_sent [OF driver_frames(5), unfolded CMD_defs]
       one_frame_first_sent [OF driver_frames(6), unfolded CMD_defs]
       one_frame_first_sent [OF driver_frames(7), unfolded CMD_defs]
       one_frame_first_sent [OF driver_frames(8), unfolded CMD_defs]
       one_frame_first_sent [OF driver_frames(9), unfolded CMD_defs]
       one_frame_first_sent [OF driver_frames(10), unfolded CMD_defs]
       one_frame_first_sent [OF driver_frames(11), unfolded CMD_defs]
       one_frame_first_sent [OF driver_frames(12), unfolded CMD_defs]
       one_frame_first_sent [OF driver_frames(13), unfolded CMD_defs]
       one_frame_first_sent [OF driver_frames(14), unfolded CMD_defs]
       one_frame_first_sent [OF driver_frames(15), unfolded CMD_defs]
       one_frame_first_sent [OF driver_frames(16), unfolded CMD_defs]
       one_frame_first_sent [OF driver_frames(17), unfolded CMD_defs]
       one_frame_first_sent [OF driver_frames(18), unfolded CMD_defs]
       one_frame_first_sent [OF driver_frames(19), unfolded CMD_defs]
       one_frame_first_sent [OF driver_frames(20), unfolded CMD_defs]
       one_frame_first_sent [OF driver_frames(21), unfolded CMD_defs]
       one_frame_first_sent [OF driver_frames(22), unfolded CMD_defs]
       one_frame_first_sent [OF driver_frames(23), unfolded CMD_defs]
       one_frame_first_sent [OF driver_frames(24), unfolded CMD_defs])


text \<open>The same on a scripted device, with concrete arguments.\<close>

theorem first_byte_is_the_command_code_witness:
  "take 1 (sent_bytes (emitted (script [1, 2, 3])
      (m25p16_write_enable scripted (script [1, 2, 3])))) = [0x06] \<and>
   take 1 (sent_bytes (emitted (script [1, 2, 3])
      (m25p16_write_disable scripted (script [1, 2, 3])))) = [0x04] \<and>
   take 1 (sent_bytes (emitted (script [1, 2, 3])
      (snd (m25p16_read_identification scripted blank_identification (script [1, 2, 3]))))) = [0x9F] \<and>
   take 1 (sent_bytes (emitted (script [1, 2, 3])
      (snd (m25p16_read_status_register scripted (script [1, 2, 3]))))) = [0x05] \<and>
   take 1 (sent_bytes (emitted (script [1, 2, 3])
      (m25p16_write_status_register scripted 0x1C (script [1, 2, 3])))) = [0x01] \<and>
   take 1 (sent_bytes (emitted (script [1, 2, 3])
      (snd (m25p16_read_data_bytes scripted 0x123456 (buf_of []) 2 (script [1, 2, 3]))))) = [0x03] \<and>
   take 1 (sent_bytes (emitted (script [1, 2, 3])
      (m25p16_page_program scripted 0x123456 (buf_of [9, 8]) 2 (script [1, 2, 3])))) = [0x02] \<and>
   take 1 (sent_bytes (emitted (script [1, 2, 3])
      (m25p16_sector_erase scripted 0x123456 (script [1, 2, 3])))) = [0xD8] \<and>
   take 1 (sent_bytes (emitted (script [1, 2, 3])
      (m25p16_bulk_erase scripted (script [1, 2, 3])))) = [0xC7] \<and>
   take 1 (sent_bytes (emitted (script [1, 2, 3])
      (m25p16_deep_power_down scripted (script [1, 2, 3])))) = [0xB9] \<and>
   take 1 (sent_bytes (emitted (script [1, 2, 3])
      (m25p16_release_from_deep_power_down scripted (script [1, 2, 3])))) = [0xAB] \<and>
   take 1 (sent_bytes (emitted (script [1, 2, 3])
      (m25px16_write_enable scripted (script [1, 2, 3])))) = [0x06] \<and>
   take 1 (sent_bytes (emitted (script [1, 2, 3])
      (m25px16_write_disable scripted (script [1, 2, 3])))) = [0x04] \<and>
   take 1 (sent_bytes (emitted (script [1, 2, 3])
      (snd (m25px16_read_identification scripted blank_identification (script [1, 2, 3]))))) = [0x9F] \<and>
   take 1 (sent_bytes (emitted (script [1, 2, 3])
      (snd (m25px16_read_status_register scripted (script [1, 2, 3]))))) = [0x05] \<and>
   take 1 (sent_bytes (emitted (script [1, 2, 3])
      (m25px16_write_status_register scripted 0x1C (script [1, 2, 3])))) = [0x01] \<and>
   take 1 (sent_bytes (emitted (script [1, 2, 3])
      (m25px16_write_lock_register scripted 0x123456 1 (script [1, 2, 3])))) = [0xE5] \<and>
   take 1 (sent_bytes (emitted (script [1, 2, 3])
      (snd (m25px16_read_lock_register scripted 0x123456 (script [1, 2, 3]))))) = [0xE8] \<and>
   take 1 (sent_bytes (emitted (script [1, 2, 3])
      (snd (m25px16_read_data_bytes scripted 0x123456 (buf_of []) 2 (script [1, 2, 3]))))) = [0x03] \<and>
   take 1 (sent_bytes (emitted (script [1, 2, 3])
      (m25px16_page_program scripted 0x123456 (buf_of [9, 8]) 2 (script [1, 2, 3])))) = [0x02] \<and>
   take 1 (sent_bytes (emitted (script [1, 2, 3])
      (m25px16_sector_erase scripted 0x123456 (script [1, 2, 3])))) = [0xD8] \<and>
   take 1 (sent_bytes (emitted (script [1, 2, 3])
      (m25px16_bulk_erase scripted (script [1, 2, 3])))) = [0xC7] \<and>
   take 1 (sent_bytes (emitted (script [1, 2, 3])
      (m25px16_deep_power_down scripted (script [1, 2, 3])))) = [0xB9] \<and>
   take 1 (sent_bytes (emitted (script [1, 2, 3])
      (m25px16_release_from_deep_power_down scripted (script [1, 2, 3])))) = [0xAB]"
  by (rule first_byte_is_the_command_code)

section \<open>One acquisition of the bus for each command\<close>

text \<open>
  Claim C8. Every operation of the chip driver acquires the bus exactly once
  and in a scope: it asserts chip select once, makes all its transfers, and
  deasserts chip select once before it returns; none leaves the bus asserted,
  and no transfer happens with chip select high. The two functions that issue
  no command, \<^verbatim>\<open>m25p16_init\<close> and \<^verbatim>\<open>m25px16_init\<close>, only run
  \<^verbatim>\<open>SPI_INIT\<close> and put nothing on the bus.
\<close>

theorem one_scoped_acquisition_per_command:
  "scoped_call b (m25p16_write_enable T b) \<and>
   scoped_call b (m25p16_write_disable T b) \<and>
   scoped_call b (snd (m25p16_read_identification T p b)) \<and>
   scoped_call b (snd (m25p16_read_status_register T b)) \<and>
   scoped_call b (m25p16_write_status_register T sreg b) \<and>
   scoped_call b (snd (m25p16_read_data_bytes T addr out siz b)) \<and>
   scoped_call b (m25p16_page_program T addr buf siz b) \<and>
   scoped_call b (m25p16_sector_erase T addr b) \<and>
   scoped_call b (m25p16_bulk_erase T b) \<and>
   scoped_call b (m25p16_deep_power_down T b) \<and>
   scoped_call b (m25p16_release_from_deep_power_down T b) \<and>
   scoped_call b (m25px16_write_enable T b) \<and>
   scoped_call b (m25px16_write_disable T b) \<and>
   scoped_call b (snd (m25px16_read_identification T p b)) \<and>
   scoped_call b (snd (m25px16_read_status_register T b)) \<and>
   scoped_call b (m25px16_write_status_register T sreg b) \<and>
   scoped_call b (m25px16_write_lock_register T addr lr b) \<and>
   scoped_call b (snd (m25px16_read_lock_register T addr b)) \<and>
   scoped_call b (snd (m25px16_read_data_bytes T addr out siz b)) \<and>
   scoped_call b (m25px16_page_program T addr buf siz b) \<and>
   scoped_call b (m25px16_sector_erase T addr b) \<and>
   scoped_call b (m25px16_bulk_erase T b) \<and>
   scoped_call b (m25px16_deep_power_down T b) \<and>
   scoped_call b (m25px16_release_from_deep_power_down T b) \<and>
   emitted b (m25p16_init T b) = [] \<and>
   emitted b (m25px16_init T b) = []"
proof -
  have init: "emitted b (m25p16_init T b) = []" "emitted b (m25px16_init T b) = []"
    by (simp_all add: emitted_def m25p16_init_def m25px16_init_def SPI_INIT_def)
  show ?thesis
    by (intro conjI; (rule init)?) (rule one_frame_scoped_call, rule driver_frames)+
qed

text \<open>The same on a scripted device, with concrete arguments.\<close>

theorem one_scoped_acquisition_per_command_witness:
  "scoped_call (script [1, 2, 3])
     (m25p16_write_enable scripted (script [1, 2, 3])) \<and>
   scoped_call (script [1, 2, 3])
     (m25p16_write_disable scripted (script [1, 2, 3])) \<and>
   scoped_call (script [1, 2, 3])
     (snd (m25p16_read_identification scripted blank_identification (script [1, 2, 3]))) \<and>
   scoped_call (script [1, 2, 3])
     (snd (m25p16_read_status_register scripted (script [1, 2, 3]))) \<and>
   scoped_call (script [1, 2, 3])
     (m25p16_write_status_register scripted 0x1C (script [1, 2, 3])) \<and>
   scoped_call (script [1, 2, 3])
     (snd (m25p16_read_data_bytes scripted 0x123456 (buf_of []) 2 (script [1, 2, 3]))) \<and>
   scoped_call (script [1, 2, 3])
     (m25p16_page_program scripted 0x123456 (buf_of [9, 8]) 2 (script [1, 2, 3])) \<and>
   scoped_call (script [1, 2, 3])
     (m25p16_sector_erase scripted 0x123456 (script [1, 2, 3])) \<and>
   scoped_call (script [1, 2, 3])
     (m25p16_bulk_erase scripted (script [1, 2, 3])) \<and>
   scoped_call (script [1, 2, 3])
     (m25p16_deep_power_down scripted (script [1, 2, 3])) \<and>
   scoped_call (script [1, 2, 3])
     (m25p16_release_from_deep_power_down scripted (script [1, 2, 3])) \<and>
   scoped_call (script [1, 2, 3])
     (m25px16_write_enable scripted (script [1, 2, 3])) \<and>
   scoped_call (script [1, 2, 3])
     (m25px16_write_disable scripted (script [1, 2, 3])) \<and>
   scoped_call (script [1, 2, 3])
     (snd (m25px16_read_identification scripted blank_identification (script [1, 2, 3]))) \<and>
   scoped_call (script [1, 2, 3])
     (snd (m25px16_read_status_register scripted (script [1, 2, 3]))) \<and>
   scoped_call (script [1, 2, 3])
     (m25px16_write_status_register scripted 0x1C (script [1, 2, 3])) \<and>
   scoped_call (script [1, 2, 3])
     (m25px16_write_lock_register scripted 0x123456 1 (script [1, 2, 3])) \<and>
   scoped_call (script [1, 2, 3])
     (snd (m25px16_read_lock_register scripted 0x123456 (script [1, 2, 3]))) \<and>
   scoped_call (script [1, 2, 3])
     (snd (m25px16_read_data_bytes scripted 0x123456 (buf_of []) 2 (script [1, 2, 3]))) \<and>
   scoped_call (script [1, 2, 3])
     (m25px16_page_program scripted 0x123456 (buf_of [9, 8]) 2 (script [1, 2, 3])) \<and>
   scoped_call (script [1, 2, 3])
     (m25px16_sector_erase scripted 0x123456 (script [1, 2, 3])) \<and>
   scoped_call (script [1, 2, 3])
     (m25px16_bulk_erase scripted (script [1, 2, 3])) \<and>
   scoped_call (script [1, 2, 3])
     (m25px16_deep_power_down scripted (script [1, 2, 3])) \<and>
   scoped_call (script [1, 2, 3])
     (m25px16_release_from_deep_power_down scripted (script [1, 2, 3])) \<and>
   emitted (script [1, 2, 3]) (m25p16_init scripted (script [1, 2, 3])) = [] \<and>
   emitted (script [1, 2, 3]) (m25px16_init scripted (script [1, 2, 3])) = []"
  by (rule one_scoped_acquisition_per_command)

section \<open>Reading the identification of the device\<close>

lemma one_frame_received_length:
  "one_frame b b' xs \<Longrightarrow> length (received_bytes (emitted b b')) = length xs"
  by (simp add: one_frame_def)

lemma m25p16_read_identification_stream:
  fixes T :: "'d transport" and p :: m25p16_identification_t and b :: "'d bus"
  defines "res \<equiv> m25p16_read_identification T p b"
  defines "rs \<equiv> received_bytes (emitted b (snd res))"
  shows "scoped_call b (snd res) \<and>
    sent_bytes (emitted b (snd res)) =
      CMD_READ_IDENTIFICATION # replicate (1 + 2 + 1 + unat (rs ! 4)) 0 \<and>
    length rs = 1 + (1 + 2 + 1 + unat (rs ! 4)) \<and>
    manufacturer (fst res) = rs ! 1 \<and>
    memory_type (fst res) = rs ! 2 \<and>
    memory_capacity (fst res) = rs ! 3 \<and>
    cfd_length (fst res) = rs ! 4 \<and>
    (\<forall>k < unat (rs ! 4). cfd_content (fst res) k = rs ! (5 + k))"
proof -
  note f = m25p16_read_identification_facts [where T = T and p = p and b = b,
      folded res_def, folded rs_def]
  have n: "1 + 2 + 1 + unat (rs ! 4) = 4 + unat (rs ! 4)"
    by simp
  have len: "4 + unat (cfd_length (fst res)) = 4 + unat (rs ! 4)"
    by (simp only: f(5))
  note g = f(1) [unfolded len]
  have lenrs: "length rs = 1 + (4 + unat (rs ! 4))"
    using one_frame_received_length [OF g, folded rs_def] by simp
  show ?thesis
    unfolding n
    using f(2-5) f(6) [unfolded f(5)] one_frame_scoped_call [OF g] one_frame_sent [OF g] lenrs
    by (intro conjI allI impI)
qed

text \<open>
  Claim C4. \<^verbatim>\<open>read_identification\<close> sends the command code and then reads
  exactly \<open>1 + 2 + 1 + cfd_length\<close> bytes, where \<open>cfd_length\<close> is the fourth
  of them, for any \<open>cfd_length\<close> up to 16; the first three become the
  manufacturer, the memory type and the memory capacity, and the \<open>cfd_length\<close>
  bytes after the fourth become \<open>cfd_content\<close>, in order. In the list of
  bytes received, place 0 is what came in while the code went out, so the four
  fixed bytes are at places 1 to 4 and the content starts at place 5. The
  extended variant's function is the same function.
\<close>

theorem identification_stream_is_sized_by_its_fourth_byte:
  "(unat (received_bytes (emitted b (snd (m25p16_read_identification T p b))) ! 4)
      \<le> CFD_CONTENT_SIZE \<longrightarrow>
    scoped_call b (snd (m25p16_read_identification T p b)) \<and>
    sent_bytes (emitted b (snd (m25p16_read_identification T p b))) =
      CMD_READ_IDENTIFICATION #
        replicate (1 + 2 + 1 +
          unat (received_bytes (emitted b (snd (m25p16_read_identification T p b))) ! 4)) 0 \<and>
    length (received_bytes (emitted b (snd (m25p16_read_identification T p b)))) =
      1 + (1 + 2 + 1 +
          unat (received_bytes (emitted b (snd (m25p16_read_identification T p b))) ! 4)) \<and>
    manufacturer (fst (m25p16_read_identification T p b)) =
      received_bytes (emitted b (snd (m25p16_read_identification T p b))) ! 1 \<and>
    memory_type (fst (m25p16_read_identification T p b)) =
      received_bytes (emitted b (snd (m25p16_read_identification T p b))) ! 2 \<and>
    memory_capacity (fst (m25p16_read_identification T p b)) =
      received_bytes (emitted b (snd (m25p16_read_identification T p b))) ! 3 \<and>
    cfd_length (fst (m25p16_read_identification T p b)) =
      received_bytes (emitted b (snd (m25p16_read_identification T p b))) ! 4 \<and>
    (\<forall>k < unat (received_bytes (emitted b (snd (m25p16_read_identification T p b))) ! 4).
       cfd_content (fst (m25p16_read_identification T p b)) k =
         received_bytes (emitted b (snd (m25p16_read_identification T p b))) ! (5 + k))) \<and>
   m25px16_read_identification T p b = m25p16_read_identification T p b"
  using m25p16_read_identification_stream [where T = T and p = p and b = b]
  by (simp add: m25px16_read_identification_eq)

text \<open>A device that reports two bytes of content.\<close>

theorem identification_stream_is_sized_by_its_fourth_byte_witness:
  "unat (received_bytes (emitted (script [9, 0x20, 0x20, 0x15, 2, 7, 8, 6])
      (snd (m25p16_read_identification scripted blank_identification
             (script [9, 0x20, 0x20, 0x15, 2, 7, 8, 6])))) ! 4) \<le> CFD_CONTENT_SIZE \<and>
   received_bytes (emitted (script [9, 0x20, 0x20, 0x15, 2, 7, 8, 6])
      (snd (m25p16_read_identification scripted blank_identification
             (script [9, 0x20, 0x20, 0x15, 2, 7, 8, 6])))) = [9, 0x20, 0x20, 0x15, 2, 7, 8] \<and>
   sent_bytes (emitted (script [9, 0x20, 0x20, 0x15, 2, 7, 8, 6])
      (snd (m25p16_read_identification scripted blank_identification
             (script [9, 0x20, 0x20, 0x15, 2, 7, 8, 6])))) = [0x9F, 0, 0, 0, 0, 0, 0] \<and>
   manufacturer (fst (m25p16_read_identification scripted blank_identification
             (script [9, 0x20, 0x20, 0x15, 2, 7, 8, 6]))) = 0x20 \<and>
   memory_type (fst (m25p16_read_identification scripted blank_identification
             (script [9, 0x20, 0x20, 0x15, 2, 7, 8, 6]))) = 0x20 \<and>
   memory_capacity (fst (m25p16_read_identification scripted blank_identification
             (script [9, 0x20, 0x20, 0x15, 2, 7, 8, 6]))) = 0x15 \<and>
   cfd_length (fst (m25p16_read_identification scripted blank_identification
             (script [9, 0x20, 0x20, 0x15, 2, 7, 8, 6]))) = 2 \<and>
   cfd_content (fst (m25p16_read_identification scripted blank_identification
             (script [9, 0x20, 0x20, 0x15, 2, 7, 8, 6]))) 0 = 7 \<and>
   cfd_content (fst (m25p16_read_identification scripted blank_identification
             (script [9, 0x20, 0x20, 0x15, 2, 7, 8, 6]))) 1 = 8"
proof -
  have rs: "received_bytes (emitted (script [9, 0x20, 0x20, 0x15, 2, 7, 8, 6])
      (snd (m25p16_read_identification scripted blank_identification
             (script [9, 0x20, 0x20, 0x15, 2, 7, 8, 6])))) = [9, 0x20, 0x20, 0x15, 2, 7, 8]"
    by code_simp
  have hyp: "unat (received_bytes (emitted (script [9, 0x20, 0x20, 0x15, 2, 7, 8, 6])
      (snd (m25p16_read_identification scripted blank_identification
             (script [9, 0x20, 0x20, 0x15, 2, 7, 8, 6])))) ! 4) \<le> CFD_CONTENT_SIZE"
    by (simp add: rs CFD_CONTENT_SIZE_def)
  note t = identification_stream_is_sized_by_its_fourth_byte
      [where b = "script [9, 0x20, 0x20, 0x15, 2, 7, 8, 6]" and T = scripted
        and p = blank_identification, THEN conjunct1, THEN mp, OF hyp, unfolded rs]
  have sent: "sent_bytes (emitted (script [9, 0x20, 0x20, 0x15, 2, 7, 8, 6])
      (snd (m25p16_read_identification scripted blank_identification
             (script [9, 0x20, 0x20, 0x15, 2, 7, 8, 6])))) = [0x9F, 0, 0, 0, 0, 0, 0]"
    using t by (simp add: CMD_READ_IDENTIFICATION_def numeral_eq_Suc)
  have fields: "manufacturer (fst (m25p16_read_identification scripted blank_identification
             (script [9, 0x20, 0x20, 0x15, 2, 7, 8, 6]))) = 0x20"
    "memory_type (fst (m25p16_read_identification scripted blank_identification
             (script [9, 0x20, 0x20, 0x15, 2, 7, 8, 6]))) = 0x20"
    "memory_capacity (fst (m25p16_read_identification scripted blank_identification
             (script [9, 0x20, 0x20, 0x15, 2, 7, 8, 6]))) = 0x15"
    "cfd_length (fst (m25p16_read_identification scripted blank_identification
             (script [9, 0x20, 0x20, 0x15, 2, 7, 8, 6]))) = 2"
    using t by simp_all
  have "\<forall>k<2. cfd_content (fst (m25p16_read_identification scripted blank_identification
             (script [9, 0x20, 0x20, 0x15, 2, 7, 8, 6]))) k =
      [9, 0x20, 0x20, 0x15, 2, 7, 8] ! (5 + k)"
    using t by simp
  then have content: "cfd_content (fst (m25p16_read_identification scripted blank_identification
             (script [9, 0x20, 0x20, 0x15, 2, 7, 8, 6]))) 0 = 7"
    "cfd_content (fst (m25p16_read_identification scripted blank_identification
             (script [9, 0x20, 0x20, 0x15, 2, 7, 8, 6]))) 1 = 8"
    by simp_all
  from hyp rs sent fields content show ?thesis
    by (intro conjI)
qed

text \<open>
  Claim C9. Whatever the fourth byte (0 to 255), every store into
  \<open>cfd_content\<close> should be at an index below 16, the size of the array. The
  loop runs to \<open>cfd_length\<close> and compares nothing with 16: a device that
  reports 17 makes it store its seventeenth byte at index 16, past the end of
  the array and of the structure. Both variants do so.
\<close>

theorem identification_overruns_cfd_content:
  "cfd_length (fst (m25p16_read_identification scripted blank_identification
      (script [0, 0x20, 0x20, 0x15, 17, 1, 2, 3, 4, 5, 6, 7, 8, 9, 10, 11, 12, 13, 14, 15, 16,
               0xEE]))) = 17 \<and>
   cfd_content blank_identification 16 = 0 \<and>
   cfd_content (fst (m25p16_read_identification scripted blank_identification
      (script [0, 0x20, 0x20, 0x15, 17, 1, 2, 3, 4, 5, 6, 7, 8, 9, 10, 11, 12, 13, 14, 15, 16,
               0xEE]))) 16 = 0xEE \<and>
   cfd_content (fst (m25px16_read_identification scripted blank_identification
      (script [0, 0x20, 0x20, 0x15, 17, 1, 2, 3, 4, 5, 6, 7, 8, 9, 10, 11, 12, 13, 14, 15, 16,
               0xEE]))) 16 = 0xEE \<and>
   CFD_CONTENT_SIZE = 16"
  by code_simp

section \<open>Write and read back on the flash double\<close>

lemma flash_double_sel [simp]:
  "spi_assert flash_double = chip_assert"
  "spi_transmit flash_double = chip_transmit"
  "spi_deassert flash_double = chip_deassert"
  by (simp_all add: flash_double_def)

lemma chip_transmit_first:
  "selected c \<Longrightarrow> latched c = [] \<Longrightarrow> chip_transmit x c = (0, c\<lparr>latched := [x]\<rparr>)"
  by (simp add: chip_transmit_def)

lemma chip_transmit_other:
  "selected c \<Longrightarrow> latched c = opc # rest \<Longrightarrow> opc \<noteq> CMD_READ_STATUS_REGISTER \<Longrightarrow>
   opc \<noteq> CMD_READ_DATA_BYTES \<Longrightarrow>
   chip_transmit x c = (0, c\<lparr>latched := latched c @ [x]\<rparr>)"
  by (simp add: chip_transmit_def)

lemma chip_transmit_read_address:
  "selected c \<Longrightarrow> latched c = CMD_READ_DATA_BYTES # rest \<Longrightarrow> length rest < 3 \<Longrightarrow>
   chip_transmit x c = (0, c\<lparr>latched := latched c @ [x]\<rparr>)"
  by (simp add: chip_transmit_def CMD_defs)

lemma chip_transmit_read_data:
  "selected c \<Longrightarrow> latched c = CMD_READ_DATA_BYTES # rest \<Longrightarrow> 3 \<le> length rest \<Longrightarrow>
   chip_transmit x c =
     (memory c ((big_endian_24 rest + (length rest - 3)) mod 2 ^ 24),
      c\<lparr>latched := latched c @ [x]\<rparr>)"
  by (simp add: chip_transmit_def CMD_defs)

lemma status_read_flash_double:
  "status_read flash_double c =
     (chip_status c, c\<lparr>busy_polls := busy_polls c - 1, selected := False, latched := []\<rparr>)"
  by (simp add: status_read_def Let_def chip_assert_def chip_transmit_def chip_deassert_def
      chip_status_def CMD_defs split_beta)

lemma wip_chip_status:
  "M25P16_SREG_WRITE_IN_PROGRESS (chip_status c) \<noteq> 0 \<longleftrightarrow> 0 < busy_polls c"
  by (simp add: M25P16_SREG_WRITE_IN_PROGRESS_def chip_status_def)

lemma wip_clears_within_flash_double:
  "wip_clears_within flash_double fuel c \<longleftrightarrow> busy_polls c < fuel"
proof (induction fuel arbitrary: c)
  case 0
  then show ?case by simp
next
  case (Suc fuel)
  show ?case
    by (auto simp: status_read_flash_double wip_chip_status Suc.IH)
qed

lemma flash_wait_flash_double_memory:
  "memory (dev (snd (flash_wait flash_double fuel b))) = memory (dev b)"
proof (induction fuel arbitrary: b)
  case 0
  then show ?case by simp
next
  case (Suc fuel)
  have "memory (dev (snd (m25p16_read_status_register flash_double b))) = memory (dev b)"
    by (simp add: read_status_register_status(2) status_read_flash_double)
  with Suc.IH [of "snd (m25p16_read_status_register flash_double b)"] show ?case
    by (simp add: split_beta)
qed

lemma write_enable_flash_double:
  "dev (m25p16_write_enable flash_double b) =
     (dev b)\<lparr>write_enable_latch := True, selected := False, latched := []\<rparr>"
  by (simp add: m25p16_write_enable_def Let_def SPI_simps chip_assert_def chip_transmit_def
      chip_deassert_def)

lemma write_disable_flash_double_memory:
  "memory (dev (m25p16_write_disable flash_double b)) = memory (dev b)"
  by (simp add: m25p16_write_disable_def Let_def SPI_simps chip_assert_def chip_transmit_def
      chip_deassert_def CMD_defs)

lemma page_program_loop_flash_double:
  assumes "selected (dev b)" and "latched (dev b) = CMD_PAGE_PROGRAM # rest"
  shows "dev (m25p16_page_program_loop flash_double i n buf b) =
     (dev b)\<lparr>latched := latched (dev b) @ map buf [i..<i + n]\<rparr>"
  using assms
proof (induction n arbitrary: i b rest)
  case 0
  then show ?case by simp
next
  case (Suc n)
  let ?b1 = "snd (SPI_TRANSMIT flash_double (buf i) b)"
  have d1: "dev ?b1 = (dev b)\<lparr>latched := latched (dev b) @ [buf i]\<rparr>"
    using Suc.prems
    by (simp add: dev_SPI_TRANSMIT chip_transmit_other [where opc = CMD_PAGE_PROGRAM and rest = rest]
        CMD_defs)
  have "dev (m25p16_page_program_loop flash_double (Suc i) n buf ?b1) =
      (dev ?b1)\<lparr>latched := latched (dev ?b1) @ map buf [Suc i..<Suc i + n]\<rparr>"
    by (rule Suc.IH [where rest = "rest @ [buf i]"]) (simp_all add: d1 Suc.prems)
  then show ?case
    by (simp add: d1 upt_conv_Cons del: upt_Suc)
qed

lemma page_program_flash_double:
  assumes "write_enable_latch (dev b)"
  shows "dev (m25p16_page_program flash_double addr buf siz b) =
     (dev b)\<lparr>memory := program_page (memory (dev b)) (big_endian_24 (address_bytes addr))
                            (map buf [0..<unat siz]),
              write_enable_latch := False, busy_polls := cycle_polls (dev b),
              selected := False, latched := []\<rparr>"
proof -
  let ?b5 = "snd (SPI_TRANSMIT flash_double (addr_byte 0 addr)
    (snd (SPI_TRANSMIT flash_double (addr_byte 8 addr)
    (snd (SPI_TRANSMIT flash_double (addr_byte 16 addr)
    (snd (SPI_TRANSMIT flash_double CMD_PAGE_PROGRAM (SPI_ASSERT flash_double b))))))))"
  have d5: "dev ?b5 = (dev b)\<lparr>selected := True,
      latched := CMD_PAGE_PROGRAM # address_bytes addr\<rparr>"
    by (simp add: SPI_simps chip_assert_def chip_transmit_def CMD_defs address_bytes_def)
  let ?b6 = "m25p16_page_program_loop flash_double 0 (unat siz) buf ?b5"
  have "dev ?b6 = (dev ?b5)\<lparr>latched := latched (dev ?b5) @ map buf [0..<0 + unat siz]\<rparr>"
    by (rule page_program_loop_flash_double [where rest = "address_bytes addr"])
       (simp_all add: d5)
  then have d6: "dev ?b6 = (dev b)\<lparr>selected := True,
      latched := CMD_PAGE_PROGRAM # address_bytes addr @ map buf [0..<unat siz]\<rparr>"
    by (simp add: d5)
  have "dev (m25p16_page_program flash_double addr buf siz b) = chip_deassert (dev ?b6)"
    by (simp add: m25p16_page_program_def Let_def dev_SPI_DEASSERT)
  then show ?thesis
    unfolding d6 using assms
    by (simp add: chip_deassert_def CMD_defs address_bytes_def)
qed

lemma big_endian_24_append:
  "3 \<le> length rest \<Longrightarrow> big_endian_24 (rest @ xs) = big_endian_24 rest"
  by (cases rest rule: big_endian_24.cases) simp_all

lemma read_data_bytes_loop_flash_double:
  assumes "selected (dev b)" and "latched (dev b) = CMD_READ_DATA_BYTES # rest"
    and "3 \<le> length rest"
  shows "fst (m25p16_read_data_bytes_loop flash_double i n out b) k =
     (if i \<le> k \<and> k < i + n
      then memory (dev b) ((big_endian_24 rest + (length rest - 3) + (k - i)) mod 2 ^ 24)
      else out k)"
  using assms
proof (induction n arbitrary: i b rest out)
  case 0
  then show ?case by auto
next
  case (Suc n)
  let ?r = "memory (dev b) ((big_endian_24 rest + (length rest - 3)) mod 2 ^ 24)"
  let ?b1 = "snd (SPI_TRANSMIT flash_double 0 b)"
  have t: "chip_transmit 0 (dev b) = (?r, (dev b)\<lparr>latched := latched (dev b) @ [0]\<rparr>)"
    using Suc.prems by (simp add: chip_transmit_read_data)
  have d1: "dev ?b1 = (dev b)\<lparr>latched := latched (dev b) @ [0]\<rparr>"
    and r1: "fst (SPI_TRANSMIT flash_double 0 b) = ?r"
    by (simp_all add: dev_SPI_TRANSMIT fst_SPI_TRANSMIT t)
  have step: "m25p16_read_data_bytes_loop flash_double i (Suc n) out b =
      m25p16_read_data_bytes_loop flash_double (Suc i) n (out(i := ?r)) ?b1"
    by (simp add: split_beta r1)
  have ih: "fst (m25p16_read_data_bytes_loop flash_double (Suc i) n (out(i := ?r)) ?b1) k =
     (if Suc i \<le> k \<and> k < Suc i + n
      then memory (dev ?b1)
             ((big_endian_24 (rest @ [0]) + (length (rest @ [0]) - 3) + (k - Suc i)) mod 2 ^ 24)
      else (out(i := ?r)) k)"
    by (rule Suc.IH) (use Suc.prems in \<open>simp_all add: d1\<close>)
  show ?case
  proof (cases "Suc i \<le> k \<and> k < Suc i + n")
    case True
    have "big_endian_24 (rest @ [0]) + (length (rest @ [0]) - 3) + (k - Suc i) =
        big_endian_24 rest + (length rest - 3) + (k - i)"
      using True Suc.prems(3) by (simp add: big_endian_24_append)
    then show ?thesis
      unfolding step ih using True by (simp add: d1)
  next
    case False
    then show ?thesis
      unfolding step ih by auto
  qed
qed

lemma read_data_bytes_flash_double:
  assumes "k < unat siz"
  shows "fst (m25p16_read_data_bytes flash_double addr out siz b) k =
     memory (dev b) ((big_endian_24 (address_bytes addr) + k) mod 2 ^ 24)"
proof -
  let ?b5 = "snd (SPI_TRANSMIT flash_double (addr_byte 0 addr)
    (snd (SPI_TRANSMIT flash_double (addr_byte 8 addr)
    (snd (SPI_TRANSMIT flash_double (addr_byte 16 addr)
    (snd (SPI_TRANSMIT flash_double CMD_READ_DATA_BYTES (SPI_ASSERT flash_double b))))))))"
  have d5: "dev ?b5 = (dev b)\<lparr>selected := True,
      latched := CMD_READ_DATA_BYTES # address_bytes addr\<rparr>"
    by (simp add: SPI_simps chip_assert_def chip_transmit_def CMD_defs address_bytes_def)
  have "fst (m25p16_read_data_bytes_loop flash_double 0 (unat siz) out ?b5) k =
     (if 0 \<le> k \<and> k < 0 + unat siz
      then memory (dev ?b5)
        ((big_endian_24 (address_bytes addr) + (length (address_bytes addr) - 3) + (k - 0))
           mod 2 ^ 24)
      else out k)"
    by (rule read_data_bytes_loop_flash_double) (simp_all add: d5 address_bytes_def)
  then show ?thesis
    using assms
    by (simp add: m25p16_read_data_bytes_def Let_def split_beta d5 address_bytes_def)
qed

lemma program_page_aligned:
  assumes "A mod 256 = 0" and "j + length xs \<le> 256"
  shows "program_page m (A + j) xs k =
     (if A + j \<le> k \<and> k < A + j + length xs then m k AND xs ! (k - (A + j)) else m k)"
  using assms(2)
proof (induction xs arbitrary: m j)
  case Nil
  then show ?case by auto
next
  case (Cons x xs)
  let ?m = "m(A + j := m (A + j) AND x)"
  show ?case
  proof (cases xs)
    case Nil
    then show ?thesis by auto
  next
    case (Cons y ys)
    with Cons.prems have j: "j + 1 < 256" by simp
    from assms(1) obtain q where A: "A = 256 * q" by (auto simp: mod_eq_0_iff_dvd)
    have "(A + j) div 256 = q" using j by (simp add: A)
    moreover have "(A + j + 1) mod 256 = j + 1" using j by (simp add: A)
    ultimately have nxt: "(A + j) div 256 * 256 + (A + j + 1) mod 256 = A + (j + 1)"
      by (simp add: A)
    have "program_page m (A + j) (x # xs) k = program_page ?m (A + (j + 1)) xs k"
      by (simp only: program_page.simps nxt)
    also have "\<dots> = (if A + (j + 1) \<le> k \<and> k < A + (j + 1) + length xs
        then ?m k AND xs ! (k - (A + (j + 1))) else ?m k)"
      using Cons.prems by (intro Cons.IH) simp
    also have "\<dots> = (if A + j \<le> k \<and> k < A + j + length (x # xs)
        then m k AND (x # xs) ! (k - (A + j)) else m k)"
      by (auto simp: nth_Cons' )
    finally show ?thesis .
  qed
qed

lemma flash_wait_flash_double_cycle_polls:
  "cycle_polls (dev (snd (flash_wait flash_double fuel b))) = cycle_polls (dev b)"
proof (induction fuel arbitrary: b)
  case 0
  then show ?case by simp
next
  case (Suc fuel)
  have "cycle_polls (dev (snd (m25p16_read_status_register flash_double b))) =
      cycle_polls (dev b)"
    by (simp add: read_status_register_status(2) status_read_flash_double)
  with Suc.IH [of "snd (m25p16_read_status_register flash_double b)"] show ?case
    by (simp add: split_beta)
qed

lemma write_disable_flash_double_cycle_polls:
  "cycle_polls (dev (m25p16_write_disable flash_double b)) = cycle_polls (dev b)"
  by (simp add: m25p16_write_disable_def Let_def SPI_simps chip_assert_def chip_transmit_def
      chip_deassert_def CMD_defs)

lemma unat_page_address:
  assumes "page < M25P16_PAGE_COUNT"
  shows "unat (M25P16_PAGE_BYTE_SIZE * page) = 256 * unat page"
    and "256 * unat page + 256 \<le> 2 ^ 24"
proof -
  have p: "unat page < 8192"
    using assms by (simp add: M25P16_PAGE_COUNT_def word_less_nat_alt)
  then have "256 * unat page < 4294967296" by simp
  then show "unat (M25P16_PAGE_BYTE_SIZE * page) = 256 * unat page"
    by (simp add: M25P16_PAGE_BYTE_SIZE_def unat_word_ariths)
  show "256 * unat page + 256 \<le> 2 ^ 24" using p by simp
qed

lemma page_address_on_the_wire:
  assumes "page < M25P16_PAGE_COUNT"
  shows "big_endian_24 (address_bytes (M25P16_PAGE_BYTE_SIZE * page)) = 256 * unat page"
proof -
  have "unat (M25P16_PAGE_BYTE_SIZE * page) < 2 ^ 24"
    using unat_page_address [OF assms] by simp
  then show ?thesis
    using big_endian_addr_bytes [of "M25P16_PAGE_BYTE_SIZE * page"] unat_page_address(1) [OF assms]
    by (simp add: address_bytes_def)
qed

lemma flash_page_write_flash_double:
  assumes page: "page < M25P16_PAGE_COUNT" and siz: "siz \<le> M25P16_PAGE_BYTE_SIZE"
    and fuel: "cycle_polls (dev b) < fuel"
  shows "fst (flash_page_write flash_double fuel page buf siz b) = Some 0"
    and "memory (dev (snd (flash_page_write flash_double fuel page buf siz b))) =
      program_page (memory (dev b)) (256 * unat page) (map buf [0..<unat siz])"
    and "cycle_polls (dev (snd (flash_page_write flash_double fuel page buf siz b))) =
      cycle_polls (dev b)"
proof -
  let ?addr = "M25P16_PAGE_BYTE_SIZE * page"
  let ?b1 = "m25p16_write_enable flash_double b"
  let ?b2 = "m25p16_page_program flash_double ?addr buf siz ?b1"
  let ?w = "flash_wait flash_double fuel ?b2"
  have d2: "dev ?b2 =
      (dev b)\<lparr>memory := program_page (memory (dev b)) (256 * unat page) (map buf [0..<unat siz]),
         write_enable_latch := False, busy_polls := cycle_polls (dev b),
         selected := False, latched := []\<rparr>"
    by (simp add: page_program_flash_double write_enable_flash_double
        page_address_on_the_wire [OF page])
  have clears: "wip_clears_within flash_double fuel (dev ?b2)"
    by (simp add: wip_clears_within_flash_double d2 fuel)
  then have "fst ?w \<noteq> None"
    by (simp only: flash_wait_clears)
  then obtain sreg where w: "?w = (Some sreg, snd ?w)"
    by (cases ?w) auto
  have nb: "\<not> M25P16_PAGE_BYTE_SIZE < siz" using siz by simp
  have res: "flash_page_write flash_double fuel page buf siz b =
      (Some 0, m25p16_write_disable flash_double (snd ?w))"
    using nb by (simp add: flash_page_write_def Let_def) (subst w, simp)
  show "fst (flash_page_write flash_double fuel page buf siz b) = Some 0"
    by (simp add: res)
  show "memory (dev (snd (flash_page_write flash_double fuel page buf siz b))) =
      program_page (memory (dev b)) (256 * unat page) (map buf [0..<unat siz])"
    by (simp add: res write_disable_flash_double_memory flash_wait_flash_double_memory d2)
  show "cycle_polls (dev (snd (flash_page_write flash_double fuel page buf siz b))) =
      cycle_polls (dev b)"
    by (simp add: res write_disable_flash_double_cycle_polls
        flash_wait_flash_double_cycle_polls d2)
qed

lemma flash_page_read_flash_double:
  assumes page: "page < M25P16_PAGE_COUNT" and siz: "siz \<le> M25P16_PAGE_BYTE_SIZE"
  shows "fst (flash_page_read flash_double page out siz b) = 0"
    and "k < unat siz \<Longrightarrow>
      fst (snd (flash_page_read flash_double page out siz b)) k =
        memory (dev b) (256 * unat page + k)"
proof -
  have nb: "\<not> M25P16_PAGE_BYTE_SIZE < siz" using siz by simp
  show "fst (flash_page_read flash_double page out siz b) = 0"
    using nb by (simp add: flash_page_read_def split_beta)
  assume k: "k < unat siz"
  have "unat siz \<le> 256"
    using siz by (simp add: M25P16_PAGE_BYTE_SIZE_def word_le_nat_alt)
  with k unat_page_address(2) [OF page] have "256 * unat page + k < 2 ^ 24" by simp
  then have "(256 * unat page + k) mod 2 ^ 24 = 256 * unat page + k" by simp
  then show "fst (snd (flash_page_read flash_double page out siz b)) k =
        memory (dev b) (256 * unat page + k)"
    using nb k
    by (simp add: flash_page_read_def split_beta read_data_bytes_flash_double
        page_address_on_the_wire [OF page])
qed

lemma page_write_then_read_flash_double:
  assumes page: "page < M25P16_PAGE_COUNT" and siz: "siz \<le> M25P16_PAGE_BYTE_SIZE"
    and fuel: "cycle_polls (dev b) < fuel" and k: "k < unat siz"
  shows "fst (snd (flash_page_read flash_double page out siz
            (snd (flash_page_write flash_double fuel page buf siz b)))) k =
      memory (dev b) (256 * unat page + k) AND buf k"
proof -
  have len: "unat siz \<le> 256"
    using siz by (simp add: M25P16_PAGE_BYTE_SIZE_def word_le_nat_alt)
  have "program_page (memory (dev b)) (256 * unat page + 0) (map buf [0..<unat siz])
      (256 * unat page + k) =
      (if 256 * unat page + 0 \<le> 256 * unat page + k \<and>
          256 * unat page + k < 256 * unat page + 0 + length (map buf [0..<unat siz])
       then memory (dev b) (256 * unat page + k) AND
            map buf [0..<unat siz] ! (256 * unat page + k - (256 * unat page + 0))
       else memory (dev b) (256 * unat page + k))"
    by (rule program_page_aligned) (simp_all add: len)
  then have "program_page (memory (dev b)) (256 * unat page) (map buf [0..<unat siz])
      (256 * unat page + k) = memory (dev b) (256 * unat page + k) AND buf k"
    using k by simp
  then show ?thesis
    by (simp add: flash_page_read_flash_double(2) [OF page siz k]
        flash_page_write_flash_double(2) [OF page siz fuel])
qed

lemma sector_erase_flash_double:
  assumes "write_enable_latch (dev b)"
  shows "dev (m25p16_sector_erase flash_double addr b) =
     (dev b)\<lparr>memory := erase_sector (memory (dev b)) (big_endian_24 (address_bytes addr)),
              write_enable_latch := False, busy_polls := cycle_polls (dev b),
              selected := False, latched := []\<rparr>"
  using assms
  by (simp add: m25p16_sector_erase_def Let_def SPI_simps chip_assert_def chip_transmit_def
      chip_deassert_def CMD_defs address_bytes_def)

lemma flash_sector_erase_flash_double:
  assumes sector: "sector < M25P16_SECTOR_COUNT" and fuel: "cycle_polls (dev b) < fuel"
  shows "fst (flash_sector_erase flash_double fuel sector b) = Some 0"
    and "memory (dev (snd (flash_sector_erase flash_double fuel sector b))) =
      erase_sector (memory (dev b)) (65536 * unat sector)"
    and "cycle_polls (dev (snd (flash_sector_erase flash_double fuel sector b))) =
      cycle_polls (dev b)"
proof -
  let ?addr = "M25P16_SECTOR_BYTE_SIZE * sector"
  let ?b1 = "m25p16_write_enable flash_double b"
  let ?b2 = "m25p16_sector_erase flash_double ?addr ?b1"
  let ?w = "flash_wait flash_double fuel ?b2"
  have "unat sector < 32"
    using sector by (simp add: M25P16_SECTOR_COUNT_def word_less_nat_alt)
  then have "unat ?addr < 2 ^ 24"
    by (simp add: unat_in_range_sector [OF sector])
  then have be: "big_endian_24 (address_bytes ?addr) = 65536 * unat sector"
    using big_endian_addr_bytes [of ?addr] unat_in_range_sector [OF sector]
    by (simp add: address_bytes_def)
  have d2: "dev ?b2 =
      (dev b)\<lparr>memory := erase_sector (memory (dev b)) (65536 * unat sector),
         write_enable_latch := False, busy_polls := cycle_polls (dev b),
         selected := False, latched := []\<rparr>"
    by (simp add: sector_erase_flash_double write_enable_flash_double be)
  have "wip_clears_within flash_double fuel (dev ?b2)"
    by (simp add: wip_clears_within_flash_double d2 fuel)
  then have "fst ?w \<noteq> None"
    by (simp only: flash_wait_clears)
  then obtain sreg where w: "?w = (Some sreg, snd ?w)"
    by (cases ?w) auto
  have res: "flash_sector_erase flash_double fuel sector b =
      (Some 0, m25p16_write_disable flash_double (snd ?w))"
    by (simp add: flash_sector_erase_def Let_def) (subst w, simp)
  show "fst (flash_sector_erase flash_double fuel sector b) = Some 0"
    by (simp add: res)
  show "memory (dev (snd (flash_sector_erase flash_double fuel sector b))) =
      erase_sector (memory (dev b)) (65536 * unat sector)"
    by (simp add: res write_disable_flash_double_memory flash_wait_flash_double_memory d2)
  show "cycle_polls (dev (snd (flash_sector_erase flash_double fuel sector b))) =
      cycle_polls (dev b)"
    by (simp add: res write_disable_flash_double_cycle_polls
        flash_wait_flash_double_cycle_polls d2)
qed

lemma all_ones_AND: "(0xFF :: u8) AND x = x"
proof -
  have ones: "(0xFF :: u8) = - 1" by simp
  show ?thesis by (simp only: ones and.left_neutral)
qed

text \<open>
  Claim C3, amended. For a page \<open>p\<close> below the page count and a buffer of
  at most a page, \<^verbatim>\<open>flash_page_write(p, buf, siz)\<close> followed by
  \<^verbatim>\<open>flash_page_read(p, out, siz)\<close> on the flash double returns 0 from both
  calls, and each byte read back is the byte of \<open>buf\<close> ANDed with the byte
  the page held before the write. So \<open>buf\<close> comes back unchanged when no
  byte of the page had a 0 bit where \<open>buf\<close> has a 1, as after an erase of the
  sector. The fuel must outlast the cycle of the double.
\<close>

theorem page_round_trip_over_programmable_bytes:
  assumes "page < M25P16_PAGE_COUNT" and "siz \<le> M25P16_PAGE_BYTE_SIZE"
    and "cycle_polls (dev b) < fuel"
  shows "fst (flash_page_write flash_double fuel page buf siz b) = Some 0 \<and>
    fst (flash_page_read flash_double page out siz
           (snd (flash_page_write flash_double fuel page buf siz b))) = 0 \<and>
    (\<forall>i < unat siz.
       fst (snd (flash_page_read flash_double page out siz
                   (snd (flash_page_write flash_double fuel page buf siz b)))) i =
         memory (dev b) (256 * unat page + i) AND buf i) \<and>
    ((\<forall>i < unat siz. memory (dev b) (256 * unat page + i) AND buf i = buf i) \<longrightarrow>
     (\<forall>i < unat siz.
       fst (snd (flash_page_read flash_double page out siz
                   (snd (flash_page_write flash_double fuel page buf siz b)))) i = buf i))"
  using flash_page_write_flash_double(1) [OF assms]
    flash_page_read_flash_double(1) [OF assms(1,2)]
    page_write_then_read_flash_double [OF assms]
  by simp

text \<open>
  A chip full of zeros: sector 0 is erased through the facade, then two bytes
  written to page 3 come back as written.
\<close>

theorem page_round_trip_over_programmable_bytes_witness:
  "(3 :: u32) < M25P16_PAGE_COUNT \<and> (2 :: u32) \<le> M25P16_PAGE_BYTE_SIZE \<and>
   cycle_polls (dev (snd (flash_sector_erase flash_double 3 0 (chip_filled 0)))) < 3 \<and>
   memory (dev (snd (flash_sector_erase flash_double 3 0 (chip_filled 0)))) (256 * 3 + 0)
     AND buf_of [0xAA, 0xBB] 0 = buf_of [0xAA, 0xBB] 0 \<and>
   memory (dev (snd (flash_sector_erase flash_double 3 0 (chip_filled 0)))) (256 * 3 + 1)
     AND buf_of [0xAA, 0xBB] 1 = buf_of [0xAA, 0xBB] 1 \<and>
   fst (flash_page_write flash_double 3 3 (buf_of [0xAA, 0xBB]) 2
          (snd (flash_sector_erase flash_double 3 0 (chip_filled 0)))) = Some 0 \<and>
   fst (snd (flash_page_read flash_double 3 (buf_of []) 2
     (snd (flash_page_write flash_double 3 3 (buf_of [0xAA, 0xBB]) 2
            (snd (flash_sector_erase flash_double 3 0 (chip_filled 0))))))) 0 = 0xAA \<and>
   fst (snd (flash_page_read flash_double 3 (buf_of []) 2
     (snd (flash_page_write flash_double 3 3 (buf_of [0xAA, 0xBB]) 2
            (snd (flash_sector_erase flash_double 3 0 (chip_filled 0))))))) 1 = 0xBB"
proof -
  let ?b = "snd (flash_sector_erase flash_double 3 0 (chip_filled 0))"
  have page: "(3 :: u32) < M25P16_PAGE_COUNT" and siz: "(2 :: u32) \<le> M25P16_PAGE_BYTE_SIZE"
    by (simp_all add: M25P16_PAGE_COUNT_def M25P16_PAGE_BYTE_SIZE_def)
  have sector: "(0 :: u32) < M25P16_SECTOR_COUNT"
    by (simp add: M25P16_SECTOR_COUNT_def)
  have c0: "cycle_polls (dev (chip_filled 0)) < 3"
    by (simp add: chip_filled_def)
  have fuel: "cycle_polls (dev ?b) < 3"
    using c0 by (simp add: flash_sector_erase_flash_double(3) [OF sector c0])
  have mem: "memory (dev ?b) = erase_sector (\<lambda>a. 0) 0"
    unfolding flash_sector_erase_flash_double(2) [OF sector c0]
    by (simp add: chip_filled_def)
  have erased: "memory (dev ?b) (256 * 3 + 0) AND buf_of [0xAA, 0xBB] 0 = buf_of [0xAA, 0xBB] 0"
    "memory (dev ?b) (256 * 3 + 1) AND buf_of [0xAA, 0xBB] 1 = buf_of [0xAA, 0xBB] 1"
    by (simp_all add: mem erase_sector_def all_ones_AND)
  have prog: "\<forall>i < unat (2 :: u32).
      memory (dev ?b) (256 * unat (3 :: u32) + i) AND buf_of [0xAA, 0xBB] i = buf_of [0xAA, 0xBB] i"
    by (simp add: mem erase_sector_def all_ones_AND)
  note t = page_round_trip_over_programmable_bytes [OF page siz fuel,
      where buf = "buf_of [0xAA, 0xBB]" and out = "buf_of []"]
  from t have rc: "fst (flash_page_write flash_double 3 3 (buf_of [0xAA, 0xBB]) 2 ?b) = Some 0"
    by simp
  from t prog have "\<forall>i < unat (2 :: u32).
       fst (snd (flash_page_read flash_double 3 (buf_of []) 2
              (snd (flash_page_write flash_double 3 3 (buf_of [0xAA, 0xBB]) 2 ?b)))) i =
       buf_of [0xAA, 0xBB] i"
    by blast
  then have readback: "fst (snd (flash_page_read flash_double 3 (buf_of []) 2
              (snd (flash_page_write flash_double 3 3 (buf_of [0xAA, 0xBB]) 2 ?b)))) 0 = 0xAA"
    "fst (snd (flash_page_read flash_double 3 (buf_of []) 2
              (snd (flash_page_write flash_double 3 3 (buf_of [0xAA, 0xBB]) 2 ?b)))) 1 = 0xBB"
    by (simp_all add: buf_of_def)
  from page siz fuel erased rc readback show ?thesis
    by (intro conjI)
qed

text \<open>
  Claim C3 as stated fails: on an erased chip, page 3 is written with
  \<open>0x0F\<close> and then, with no erase in between, with \<open>0xAA\<close>; both writes and
  the read return 0, and the byte read back is \<open>0x0A\<close>, not \<open>0xAA\<close>.
\<close>

theorem page_round_trip_counterexample:
  "fst (flash_page_write flash_double 3 3 (buf_of [0xAA]) 1
         (snd (flash_page_write flash_double 3 3 (buf_of [0x0F]) 1 (chip_filled 0xFF)))) = Some 0 \<and>
   fst (flash_page_read flash_double 3 (buf_of []) 1
     (snd (flash_page_write flash_double 3 3 (buf_of [0xAA]) 1
            (snd (flash_page_write flash_double 3 3 (buf_of [0x0F]) 1 (chip_filled 0xFF)))))) = 0 \<and>
   fst (snd (flash_page_read flash_double 3 (buf_of []) 1
     (snd (flash_page_write flash_double 3 3 (buf_of [0xAA]) 1
            (snd (flash_page_write flash_double 3 3 (buf_of [0x0F]) 1 (chip_filled 0xFF))))))) 0
     = 0x0A \<and>
   buf_of [0xAA] 0 = 0xAA"
proof -
  let ?b = "snd (flash_page_write flash_double 3 3 (buf_of [0x0F]) 1 (chip_filled 0xFF))"
  have page: "(3 :: u32) < M25P16_PAGE_COUNT" and siz: "(1 :: u32) \<le> M25P16_PAGE_BYTE_SIZE"
    by (simp_all add: M25P16_PAGE_COUNT_def M25P16_PAGE_BYTE_SIZE_def)
  have c0: "cycle_polls (dev (chip_filled 0xFF)) < 3"
    by (simp add: chip_filled_def)
  have fuel: "cycle_polls (dev ?b) < 3"
    using c0 by (simp add: flash_page_write_flash_double(3) [OF page siz c0])
  have mem: "memory (dev ?b) (256 * unat (3 :: u32) + 0) = 0x0F"
    unfolding flash_page_write_flash_double(2) [OF page siz c0]
    by (simp add: chip_filled_def buf_of_def)
  have "fst (snd (flash_page_read flash_double 3 (buf_of []) 1
      (snd (flash_page_write flash_double 3 3 (buf_of [0xAA]) 1 ?b)))) 0 =
      memory (dev ?b) (256 * unat (3 :: u32) + 0) AND buf_of [0xAA] 0"
    by (rule page_write_then_read_flash_double [OF page siz fuel]) simp
  then have readback: "fst (snd (flash_page_read flash_double 3 (buf_of []) 1
      (snd (flash_page_write flash_double 3 3 (buf_of [0xAA]) 1 ?b)))) 0 = 0x0A"
    unfolding mem by (simp add: buf_of_def)
  have b: "buf_of [0xAA] 0 = 0xAA" by (simp add: buf_of_def)
  from flash_page_write_flash_double(1) [OF page siz fuel]
    flash_page_read_flash_double(1) [OF page siz] readback b
  show ?thesis by (intro conjI)
qed

end
